theory Spec2Isabelle
  imports Main "HOL-Library.Word"
begin

section \<open>The simple debugger of NEMU: \<^verbatim>\<open>nemu/src/monitor/sdb/sdb.c\<close>\<close>

text \<open>
  The monitor reads one line at a time, takes the first space-delimited token as the
  command, looks it up in \<^verbatim>\<open>cmd_table\<close> and calls the handler. The handlers print
  to standard output and call the simulator (\<^verbatim>\<open>cpu_exec\<close>, \<^verbatim>\<open>isa_reg_display\<close>,
  \<^verbatim>\<open>vaddr_read\<close>, \<^verbatim>\<open>isa_reg_str2val\<close>) and the watchpoint pool (\<^verbatim>\<open>new_wp\<close>,
  \<^verbatim>\<open>free_wp\<close>, \<^verbatim>\<open>free_wp_by_num\<close>).

  Everything a handler does is recorded, in order, in a trace of events; a step of the C
  program with undefined behaviour (a null pointer passed to \<^verbatim>\<open>strcmp\<close> or
  \<^verbatim>\<open>strcpy\<close>, a read of a variable that was never written) is a fault.
\<close>

subsection \<open>Machine words and the text \<^verbatim>\<open>printf\<close> produces\<close>

type_synonym word_t = "32 word"
type_synonym vaddr_t = "32 word"

definition hex_digit :: "nat \<Rightarrow> char" where
  "hex_digit d = ''0123456789abcdef'' ! (d mod 16)"

fun hex_of_nat :: "nat \<Rightarrow> string" where
  "hex_of_nat n =
     (if n < 16 then [hex_digit n] else hex_of_nat (n div 16) @ [hex_digit (n mod 16)])"

definition dec_digit :: "nat \<Rightarrow> char" where
  "dec_digit d = ''0123456789'' ! (d mod 10)"

fun dec_of_nat :: "nat \<Rightarrow> string" where
  "dec_of_nat n =
     (if n < 10 then [dec_digit n] else dec_of_nat (n div 10) @ [dec_digit (n mod 10)])"

definition zero_pad :: "nat \<Rightarrow> string \<Rightarrow> string" where
  "zero_pad w s = replicate (w - length s) (CHR ''0'') @ s"

text \<open>\<^verbatim>\<open>%08x\<close> and \<^verbatim>\<open>%02x\<close> of an unsigned 32-bit value.\<close>

definition fmt_08x :: "32 word \<Rightarrow> string" where
  "fmt_08x v = zero_pad 8 (hex_of_nat (unat v))"

definition fmt_02x :: "32 word \<Rightarrow> string" where
  "fmt_02x v = zero_pad 2 (hex_of_nat (unat v))"

text \<open>\<^verbatim>\<open>%d\<close> of a 32-bit value: it is read as a signed \<^verbatim>\<open>int\<close>.\<close>

definition fmt_d :: "32 word \<Rightarrow> string" where
  "fmt_d v = (if sint v < 0 then CHR ''-'' # dec_of_nat (nat (- sint v))
              else dec_of_nat (nat (sint v)))"

subsection \<open>Faults, events and the collaborators\<close>

datatype fault =
    Null_deref    \<comment> \<open>a null pointer is dereferenced\<close>
  | Uninit_read   \<comment> \<open>a local variable is read before anything was stored in it\<close>

datatype event =
    Printf string             \<comment> \<open>the text one \<^verbatim>\<open>printf\<close> call writes\<close>
  | Readline                  \<comment> \<open>\<^verbatim>\<open>readline("(nemu) ")\<close>\<close>
  | Add_history string
  | Cpu_exec int              \<comment> \<open>\<^verbatim>\<open>cpu_exec(n)\<close>, with the \<^verbatim>\<open>int\<close> the handler passes\<close>
  | Isa_reg_display
  | Isa_reg_str2val string
  | Vaddr_read vaddr_t int    \<comment> \<open>\<^verbatim>\<open>vaddr_read(addr, len)\<close>\<close>

text \<open>
  The C library's scanner and the simulator are not part of this file; they are
  parameters. \<open>sscanf_d t\<close> is \<^verbatim>\<open>sscanf(t, "%d", &n)\<close>: \<open>Some v\<close> when a value \<open>v\<close>
  is stored in \<^verbatim>\<open>n\<close>, \<open>None\<close> when nothing is stored and \<^verbatim>\<open>n\<close> keeps what it held.
  \<open>sscanf_x\<close> is the same for \<^verbatim>\<open>"%x"\<close>. \<open>isa_reg_str2val\<close> returns the value and the
  \<^verbatim>\<open>success\<close> flag it leaves.
\<close>

record 'm env =
  sscanf_d :: "string \<Rightarrow> int option"
  sscanf_x :: "string \<Rightarrow> vaddr_t option"
  isa_reg_str2val :: "'m \<Rightarrow> string \<Rightarrow> word_t \<times> bool"
  vaddr_read :: "'m \<Rightarrow> vaddr_t \<Rightarrow> int \<Rightarrow> word_t"
  cpu_exec :: "int \<Rightarrow> 'm \<Rightarrow> 'm"

subsection \<open>The watchpoint pool\<close>

text \<open>
  \<^verbatim>\<open>watchpoint.c\<close> is not among the sources: \<^verbatim>\<open>sdb.c\<close> only calls \<^verbatim>\<open>new_wp\<close>,
  \<^verbatim>\<open>free_wp\<close> and \<^verbatim>\<open>free_wp_by_num\<close> and writes the fields \<^verbatim>\<open>expr\<close> and
  \<^verbatim>\<open>value\<close> of the slot it got.
\<close>

text \<open>Modelled from the spec: a watchpoint slot holds the expression text and the last
  value; its id is its index in the arena.\<close>

record watchpoint =
  expr :: string
  val :: word_t

text \<open>Modelled from the spec: the Watchpoint Store is an arena of fixed-capacity slots
  plus an explicit free-index list and the active indices.\<close>

record wp_store =
  slots :: "watchpoint list"
  free_list :: "nat list"
  active_list :: "nat list"

text \<open>Modelled from the spec: \<^verbatim>\<open>initWatchpointPool(capacity)\<close> leaves every slot free.\<close>

definition init_wp_pool :: "nat \<Rightarrow> wp_store" where
  "init_wp_pool capacity =
     \<lparr>slots = replicate capacity \<lparr>expr = [], val = 0\<rparr>,
      free_list = [0..<capacity], active_list = []\<rparr>"

text \<open>Modelled from the spec: pool occupancy is the number of active slots.\<close>

definition occupancy :: "wp_store \<Rightarrow> nat" where
  "occupancy p = length (active_list p)"

text \<open>Modelled from the spec: \<^verbatim>\<open>new_wp\<close> allocates one slot from the Store and fails
  (here: returns no slot, the null pointer of the C interface) if the pool is exhausted.\<close>

definition new_wp :: "wp_store \<Rightarrow> (nat \<times> wp_store) option" where
  "new_wp p =
     (case free_list p of
        [] \<Rightarrow> None
      | i # rest \<Rightarrow> Some (i, p\<lparr>free_list := rest, active_list := i # active_list p\<rparr>))"

text \<open>Modelled from the spec: \<^verbatim>\<open>free_wp\<close> releases a slot back to the Store; releasing
  a slot that is not active is a no-op.\<close>

definition free_wp :: "nat \<Rightarrow> wp_store \<Rightarrow> wp_store" where
  "free_wp i p =
     (if i \<in> set (active_list p)
      then p\<lparr>free_list := i # free_list p, active_list := removeAll i (active_list p)\<rparr>
      else p)"

text \<open>Modelled from the spec: \<^verbatim>\<open>free_wp_by_num\<close> releases the watchpoint with the given
  id; releasing a non-existent or already-released id is a no-op.\<close>

definition free_wp_by_num :: "int \<Rightarrow> wp_store \<Rightarrow> wp_store" where
  "free_wp_by_num n p =
     (if 0 \<le> n \<and> nat n \<in> set (active_list p) then free_wp (nat n) p else p)"

text \<open>The two stores \<^verbatim>\<open>strcpy(wp->expr, arg)\<close> and \<^verbatim>\<open>wp->value = ...\<close> of \<^verbatim>\<open>cmd_w\<close>.\<close>

definition set_wp_expr :: "nat \<Rightarrow> string \<Rightarrow> wp_store \<Rightarrow> wp_store" where
  "set_wp_expr i e p = p\<lparr>slots := (slots p)[i := (slots p ! i)\<lparr>expr := e\<rparr>]\<rparr>"

definition set_wp_value :: "nat \<Rightarrow> word_t \<Rightarrow> wp_store \<Rightarrow> wp_store" where
  "set_wp_value i v p = p\<lparr>slots := (slots p)[i := (slots p ! i)\<lparr>val := v\<rparr>]\<rparr>"

text \<open>Modelled from the spec: the free list and the active set partition the slots.\<close>

definition wf_store :: "wp_store \<Rightarrow> bool" where
  "wf_store p \<longleftrightarrow>
     distinct (free_list p @ active_list p) \<and>
     set (free_list p) \<union> set (active_list p) = {0..<length (slots p)}"

subsection \<open>The state of the monitor\<close>

text \<open>Modelled from the spec: the run-state of the machine, of which \<^verbatim>\<open>sdb.c\<close> names
  only \<^verbatim>\<open>NEMU_QUIT\<close>.\<close>

datatype nemu_run_state = NEMU_RUNNING | NEMU_QUIT

record 'm sdb_state =
  is_batch_mode :: bool
  nemu_state :: nemu_run_state
  strtok_save :: string          \<comment> \<open>where \<^verbatim>\<open>strtok(NULL, ...)\<close> goes on\<close>
  wp_pool :: wp_store
  machine :: 'm
  trace :: "event list"

definition emit :: "event list \<Rightarrow> 'm sdb_state \<Rightarrow> 'm sdb_state" where
  "emit es s = s\<lparr>trace := trace s @ es\<rparr>"

text \<open>The text written to standard output by \<^verbatim>\<open>printf\<close>, and the memory reads, of a trace.\<close>

fun printed :: "event list \<Rightarrow> string" where
  "printed [] = []"
| "printed (Printf t # es) = t @ printed es"
| "printed (e # es) = printed es"

fun reads :: "event list \<Rightarrow> vaddr_t list" where
  "reads [] = []"
| "reads (Vaddr_read a n # es) = a # reads es"
| "reads (e # es) = reads es"

subsection \<open>\<^verbatim>\<open>strtok\<close> with the delimiter \<^verbatim>\<open>" "\<close>\<close>

text \<open>
  \<open>strtok_in str\<close> is \<^verbatim>\<open>strtok(str, " ")\<close>: it skips the leading spaces; when nothing is
  left it returns the null pointer, otherwise the token up to the next space, and it
  saves the position after that space (or the end of the string).
\<close>

definition strtok_in :: "string \<Rightarrow> string option \<times> string" where
  "strtok_in str =
     (let t = dropWhile (\<lambda>c. c = CHR '' '') str in
      if t = [] then (None, [])
      else (Some (takeWhile (\<lambda>c. c \<noteq> CHR '' '') t),
            drop 1 (dropWhile (\<lambda>c. c \<noteq> CHR '' '') t)))"

text \<open>\<^verbatim>\<open>strtok(NULL, " ")\<close>: the next token of the line being split.\<close>

definition strtok_next :: "'m sdb_state \<Rightarrow> string option \<times> 'm sdb_state" where
  "strtok_next s =
     (let (tok, rest) = strtok_in (strtok_save s) in (tok, s\<lparr>strtok_save := rest\<rparr>))"

subsection \<open>The command handlers\<close>

text \<open>
  A handler \<^verbatim>\<open>static int cmd_...(char *args)\<close> returns its \<^verbatim>\<open>int\<close> and the new
  state, or the fault it runs into. No handler reads \<^verbatim>\<open>args\<close>: each goes on splitting
  the line with \<^verbatim>\<open>strtok(NULL, " ")\<close>.
\<close>

type_synonym 'm outcome = "fault + (int \<times> 'm sdb_state)"
type_synonym 'm handler = "'m env \<Rightarrow> string option \<Rightarrow> 'm sdb_state \<Rightarrow> 'm outcome"

definition call_cpu_exec :: "'m env \<Rightarrow> int \<Rightarrow> 'm sdb_state \<Rightarrow> 'm sdb_state" where
  "call_cpu_exec env n s = emit [Cpu_exec n] (s\<lparr>machine := cpu_exec env n (machine s)\<rparr>)"

definition cmd_c :: "'m handler" where
  "cmd_c env args s = Inr (0, call_cpu_exec env (- 1) s)"

definition cmd_q :: "'m handler" where
  "cmd_q env args s = Inr (- 1, s\<lparr>nemu_state := NEMU_QUIT\<rparr>)"

text \<open>The first definition of \<^verbatim>\<open>cmd_help\<close> (line 56), the one in scope where
  \<^verbatim>\<open>cmd_table\<close> is initialised.\<close>

definition cmd_help :: "'m handler" where
  "cmd_help env args s = Inr (0, emit
     [Printf ''help: Display information about all supported commands\<newline>'',
      Printf ''c: Continue the execution of the program\<newline>'',
      Printf ''q: Exit NEMU\<newline>'',
      Printf ''si: step N commands\<newline>'',
      Printf ''info: print the information of registers\<newline>'',
      Printf ''x: scan memory\<newline>'',
      Printf ''p: print the value of expression\<newline>'',
      Printf ''w: set watchpoint\<newline>'',
      Printf ''d: delete watchpoint\<newline>''] s)"

definition cmd_si :: "'m handler" where
  "cmd_si env args s =
     (let (arg, s1) = strtok_next s;
          n = (case arg of
                 None \<Rightarrow> 1
               | Some a \<Rightarrow> (case sscanf_d env a of None \<Rightarrow> 1 | Some v \<Rightarrow> v))
      in Inr (0, call_cpu_exec env n s1))"

definition cmd_info :: "'m handler" where
  "cmd_info env args s =
     (let (arg, s1) = strtok_next s in
      case arg of
        None \<Rightarrow> Inl Null_deref   \<comment> \<open>\<^verbatim>\<open>strcmp\<close> reads through the null pointer\<close>
      | Some a \<Rightarrow>
          if a = ''w'' then
            Inr (0, emit [Printf ''info r: print the information of registers\<newline>''] s1)
          else if a = ''r'' then Inr (0, emit [Isa_reg_display] s1)
          else Inr (0, s1))"

text \<open>The inner loop of \<^verbatim>\<open>cmd_x\<close>, \<^verbatim>\<open>for (int j = 0; j < 4; j++)\<close>, with the
  number of iterations left, and the outer loop \<^verbatim>\<open>for (int i = 0; i < n; i++)\<close>.\<close>

fun x_bytes :: "'m env \<Rightarrow> nat \<Rightarrow> 'm sdb_state \<times> vaddr_t \<Rightarrow> 'm sdb_state \<times> vaddr_t" where
  "x_bytes env 0 (s, addr) = (s, addr)"
| "x_bytes env (Suc k) (s, addr) =
     x_bytes env k
       (emit [Vaddr_read addr 1,
              Printf (''0x'' @ fmt_02x (vaddr_read env (machine s) addr 1) @ '' '')] s,
        addr + 1)"

fun x_rows :: "'m env \<Rightarrow> nat \<Rightarrow> 'm sdb_state \<times> vaddr_t \<Rightarrow> 'm sdb_state \<times> vaddr_t" where
  "x_rows env 0 (s, addr) = (s, addr)"
| "x_rows env (Suc k) (s, addr) =
     (let s1 = emit [Printf (''0x'' @ fmt_08x addr @ '': '')] s;
          (s2, addr2) = x_bytes env 4 (s1, addr);
          s3 = emit [Printf ''\<newline>''] s2
      in x_rows env k (s3, addr2))"

text \<open>
  \<^verbatim>\<open>int n; vaddr_t addr;\<close> are not initialised: each holds a value only if its
  \<^verbatim>\<open>sscanf\<close> stored one. The loop test \<^verbatim>\<open>i < n\<close> reads \<^verbatim>\<open>n\<close>; \<^verbatim>\<open>addr\<close> is read
  only inside the loop.
\<close>

definition cmd_x :: "'m handler" where
  "cmd_x env args s =
     (let (arg1, s1) = strtok_next s;
          (arg2, s2) = strtok_next s1
      in case (arg1, arg2) of
           (Some a1, Some a2) \<Rightarrow>
             (case sscanf_d env a1 of
                None \<Rightarrow> Inl Uninit_read
              | Some n \<Rightarrow>
                  if 0 < n then
                    (case sscanf_x env a2 of
                       None \<Rightarrow> Inl Uninit_read
                     | Some addr \<Rightarrow> Inr (0, fst (x_rows env (nat n) (s2, addr))))
                  else Inr (0, s2))
         | _ \<Rightarrow> Inr (0, emit [Printf ''x N EXPR: scan memory\<newline>''] s2))"

definition cmd_p :: "'m handler" where
  "cmd_p env args s =
     (let (arg, s1) = strtok_next s in
      case arg of
        None \<Rightarrow> Inr (0, emit [Printf ''p EXPR: print the value of expression\<newline>''] s1)
      | Some a \<Rightarrow>
          (let (result, success) = isa_reg_str2val env (machine s1) a;
               s2 = emit [Isa_reg_str2val a] s1
           in if success then Inr (0, emit [Printf (fmt_d result @ ''\<newline>'')] s2)
              else Inr (0, emit [Printf ''Invalid expression\<newline>''] s2)))"

text \<open>\<^verbatim>\<open>cmd_w\<close> does not test the pointer \<^verbatim>\<open>new_wp\<close> returns before
  \<^verbatim>\<open>strcpy(wp->expr, arg)\<close>.\<close>

definition cmd_w :: "'m handler" where
  "cmd_w env args s =
     (let (arg, s1) = strtok_next s in
      case arg of
        None \<Rightarrow> Inr (0, emit [Printf ''w EXPR: set watchpoint\<newline>''] s1)
      | Some a \<Rightarrow>
          (case new_wp (wp_pool s1) of
             None \<Rightarrow> Inl Null_deref
           | Some (wp, pool1) \<Rightarrow>
               (let pool2 = set_wp_expr wp a pool1;
                    (v, success) = isa_reg_str2val env (machine s1) a;
                    s2 = emit [Isa_reg_str2val a] (s1\<lparr>wp_pool := set_wp_value wp v pool2\<rparr>)
                in if \<not> success then
                     (let s3 = emit [Printf ''Invalid expression\<newline>''] s2
                      in Inr (0, s3\<lparr>wp_pool := free_wp wp (wp_pool s3)\<rparr>))
                   else Inr (0, s2))))"

text \<open>\<^verbatim>\<open>int n;\<close> is passed to \<^verbatim>\<open>free_wp_by_num\<close> whether or not \<^verbatim>\<open>sscanf\<close> stored
  a value in it.\<close>

definition cmd_d :: "'m handler" where
  "cmd_d env args s =
     (let (arg, s1) = strtok_next s in
      case arg of
        None \<Rightarrow> Inr (0, emit [Printf ''d N: delete watchpoint\<newline>''] s1)
      | Some a \<Rightarrow>
          (case sscanf_d env a of
             None \<Rightarrow> Inl Uninit_read
           | Some n \<Rightarrow> Inr (0, s1\<lparr>wp_pool := free_wp_by_num n (wp_pool s1)\<rparr>)))"

subsection \<open>The command table\<close>

definition cmd_table :: "(string \<times> string \<times> 'm handler) list" where
  "cmd_table =
     [(''help'', ''Display information about all supported commands'', cmd_help),
      (''c'', ''Continue the execution of the program'', cmd_c),
      (''q'', ''Exit NEMU'', cmd_q),
      (''si'', ''step N commands'', cmd_si),
      (''info'', ''print the information of registers'', cmd_info),
      (''x'', ''scan memory'', cmd_x),
      (''p'', ''print the value of expression'', cmd_p),
      (''w'', ''set watchpoint'', cmd_w),
      (''d'', ''delete watchpoint'', cmd_d)]"

text \<open>The second definition of \<^verbatim>\<open>cmd_help\<close> (line 178), which walks the table.\<close>

definition help_line :: "string \<times> string \<times> 'm handler \<Rightarrow> event" where
  "help_line e = Printf (fst e @ '' - '' @ fst (snd e) @ ''\<newline>'')"

definition cmd_help_table :: "'m handler" where
  "cmd_help_table env args s =
     (let (arg, s1) = strtok_next s in
      case arg of
        None \<Rightarrow> Inr (0, emit (map help_line (cmd_table :: (string \<times> string \<times> 'm handler) list)) s1)
      | Some a \<Rightarrow>
          (case find (\<lambda>e. a = fst e) (cmd_table :: (string \<times> string \<times> 'm handler) list) of
             Some e \<Rightarrow> Inr (0, emit [help_line e] s1)
           | None \<Rightarrow> Inr (0, emit [Printf (''Unknown command '' @ [CHR 0x27] @ a @ [CHR 0x27] @ ''\<newline>'')] s1)))"

subsection \<open>The main loop\<close>

datatype step_result = Continue | Terminate

text \<open>
  The search of the table, \<^verbatim>\<open>for (i = 0; i < NR_CMD; i ++)\<close>: the first entry whose name
  is the command runs, a negative result makes \<^verbatim>\<open>sdb_mainloop\<close> return, and at the end
  of the table (\<^verbatim>\<open>i == NR_CMD\<close>) the command is reported as unknown.
\<close>

definition run_handler ::
  "'m handler \<Rightarrow> 'm env \<Rightarrow> string option \<Rightarrow> 'm sdb_state \<Rightarrow>
   fault + (step_result \<times> 'm sdb_state)" where
  "run_handler handler env args s =
     (case handler env args s of
        Inl f \<Rightarrow> Inl f
      | Inr (r, s') \<Rightarrow> Inr (if r < 0 then Terminate else Continue, s'))"

fun search_table ::
  "(string \<times> string \<times> 'm handler) list \<Rightarrow> 'm env \<Rightarrow> string \<Rightarrow> string option \<Rightarrow>
   'm sdb_state \<Rightarrow> fault + (step_result \<times> 'm sdb_state)" where
  "search_table [] env cmd args s =
     Inr (Continue, emit [Printf (''Unknown command '' @ [CHR 0x27] @ cmd @ [CHR 0x27] @ ''\<newline>'')] s)"
| "search_table ((name, description, handler) # tbl) env cmd args s =
     (if cmd = name then run_handler handler env args s
      else search_table tbl env cmd args s)"

text \<open>
  The body of the loop for one line \<^verbatim>\<open>str\<close>: \<^verbatim>\<open>args\<close> is the text after the command
  and the space that ends it, or the null pointer when nothing is left. (The call of
  \<^verbatim>\<open>sdl_clear_event_queue\<close>, compiled under \<^verbatim>\<open>CONFIG_DEVICE\<close> only, touches nothing
  the monitor reads and is left out.)
\<close>

definition dispatch :: "'m env \<Rightarrow> string \<Rightarrow> 'm sdb_state \<Rightarrow> fault + (step_result \<times> 'm sdb_state)" where
  "dispatch env str s =
     (case strtok_in str of
        (None, rest) \<Rightarrow> Inr (Continue, s\<lparr>strtok_save := rest\<rparr>)
      | (Some cmd, rest) \<Rightarrow>
          search_table cmd_table env cmd (if rest = [] then None else Some rest)
            (s\<lparr>strtok_save := rest\<rparr>))"

text \<open>
  \<^verbatim>\<open>rl_gets\<close> on a line the operator typed: \<^verbatim>\<open>readline\<close> is called and a non-empty
  line goes into the history. At the end of the input \<^verbatim>\<open>readline\<close> returns the null
  pointer.
\<close>

definition rl_gets :: "string option \<Rightarrow> 'm sdb_state \<Rightarrow> 'm sdb_state" where
  "rl_gets line_read s =
     (case line_read of
        None \<Rightarrow> emit [Readline] s
      | Some l \<Rightarrow> if l \<noteq> [] then emit [Readline, Add_history l] s else emit [Readline] s)"

text \<open>
  The loop \<^verbatim>\<open>for (char *str; (str = rl_gets()) != NULL; )\<close> over the lines the input
  still holds. It returns the final state and the lines it has not read.
\<close>

fun read_loop ::
  "'m env \<Rightarrow> string list \<Rightarrow> 'm sdb_state \<Rightarrow> fault + ('m sdb_state \<times> string list)" where
  "read_loop env [] s = Inr (rl_gets None s, [])"
| "read_loop env (str # input) s =
     (case dispatch env str (rl_gets (Some str) s) of
        Inl f \<Rightarrow> Inl f
      | Inr (Terminate, s') \<Rightarrow> Inr (s', input)
      | Inr (Continue, s') \<Rightarrow> read_loop env input s')"

definition sdb_set_batch_mode :: "'m sdb_state \<Rightarrow> 'm sdb_state" where
  "sdb_set_batch_mode s = s\<lparr>is_batch_mode := True\<rparr>"

definition sdb_mainloop ::
  "'m env \<Rightarrow> string list \<Rightarrow> 'm sdb_state \<Rightarrow> fault + ('m sdb_state \<times> string list)" where
  "sdb_mainloop env input s =
     (if is_batch_mode s then
        (case cmd_c env None s of Inl f \<Rightarrow> Inl f | Inr (r, s') \<Rightarrow> Inr (s', input))
      else read_loop env input s)"

subsection \<open>What \<^verbatim>\<open>cmd_x\<close> is to print\<close>

text \<open>
  Row \<open>i\<close> of a memory dump that starts at \<open>addr\<close>, in the words of the specification:
  the current address in hexadecimal, then four bytes, each read on its own from the next
  address, then the end of the line.
\<close>

definition x_byte_spec :: "'m env \<Rightarrow> 'm \<Rightarrow> vaddr_t \<Rightarrow> event list" where
  "x_byte_spec env m a =
     [Vaddr_read a 1, Printf (''0x'' @ fmt_02x (vaddr_read env m a 1) @ '' '')]"

definition x_row_spec :: "'m env \<Rightarrow> 'm \<Rightarrow> vaddr_t \<Rightarrow> nat \<Rightarrow> event list" where
  "x_row_spec env m addr i =
     Printf (''0x'' @ fmt_08x (addr + 4 * of_nat i) @ '': '') #
     concat (map (\<lambda>j. x_byte_spec env m (addr + 4 * of_nat i + of_nat j)) [0..<4]) @
     [Printf ''\<newline>'']"

definition x_dump_spec :: "'m env \<Rightarrow> 'm \<Rightarrow> vaddr_t \<Rightarrow> nat \<Rightarrow> event list" where
  "x_dump_spec env m addr n = concat (map (x_row_spec env m addr) [0..<n])"

definition newlines :: "string \<Rightarrow> nat" where
  "newlines t = count_list t (CHR ''\<newline>'')"

subsection \<open>A concrete scanner, simulator and state for the examples\<close>

text \<open>
  The theorems below hold for every scanner and simulator. The examples run the monitor
  with the following ones: \<^verbatim>\<open>%d\<close> and \<^verbatim>\<open>%x\<close> skip white space, take an optional sign
  (and, for \<^verbatim>\<open>%x\<close>, an optional \<^verbatim>\<open>0x\<close>) and the longest run of digits, store nothing
  when there is no digit, and keep the low 32 bits of the number.
\<close>

definition is_space :: "char \<Rightarrow> bool" where
  "is_space c \<longleftrightarrow> c \<in> set [CHR '' '', CHR 0x09, CHR 0x0A, CHR 0x0B, CHR 0x0C, CHR 0x0D]"

text \<open>The first white-space-delimited token of a text, in the words of the specification:
  the text after the leading white space, up to the next white-space character.\<close>

definition first_ws_token :: "string \<Rightarrow> string option" where
  "first_ws_token t =
     (let u = dropWhile is_space t in
      if u = [] then None else Some (takeWhile (\<lambda>c. \<not> is_space c) u))"

definition digit_value :: "char \<Rightarrow> nat option" where
  "digit_value c =
     (let k = (of_char c :: nat) in
      if 48 \<le> k \<and> k \<le> 57 then Some (k - 48)
      else if 97 \<le> k \<and> k \<le> 102 then Some (k - 87)
      else if 65 \<le> k \<and> k \<le> 70 then Some (k - 55)
      else None)"

definition is_digit :: "nat \<Rightarrow> char \<Rightarrow> bool" where
  "is_digit base c = (case digit_value c of None \<Rightarrow> False | Some d \<Rightarrow> d < base)"

definition number_of :: "nat \<Rightarrow> string \<Rightarrow> nat" where
  "number_of base ds = foldl (\<lambda>acc c. acc * base + (case digit_value c of None \<Rightarrow> 0 | Some d \<Rightarrow> d)) 0 ds"

definition scan_number :: "nat \<Rightarrow> bool \<Rightarrow> string \<Rightarrow> int option" where
  "scan_number base prefixed t =
     (let u = dropWhile is_space t;
          neg = (take 1 u = ''-'');
          v = (if take 1 u = ''-'' \<or> take 1 u = ''+'' then drop 1 u else u);
          w = (if prefixed \<and> (take 2 v = ''0x'' \<or> take 2 v = ''0X'') \<and>
                  (case drop 2 v of [] \<Rightarrow> False | c # _ \<Rightarrow> is_digit base c)
               then drop 2 v else v);
          ds = takeWhile (is_digit base) w
      in if ds = [] then None
         else Some (if neg then - int (number_of base ds) else int (number_of base ds)))"

definition example_sscanf_d :: "string \<Rightarrow> int option" where
  "example_sscanf_d t = map_option (\<lambda>v. sint (word_of_int v :: 32 word)) (scan_number 10 False t)"

definition example_sscanf_x :: "string \<Rightarrow> vaddr_t option" where
  "example_sscanf_x t = map_option word_of_int (scan_number 16 True t)"

text \<open>A machine whose only register is \<^verbatim>\<open>pc\<close> and whose memory holds, at every address,
  the low byte of the address.\<close>

definition example_env :: "unit env" where
  "example_env =
     \<lparr>sscanf_d = example_sscanf_d,
      sscanf_x = example_sscanf_x,
      isa_reg_str2val = (\<lambda>m t. if t = ''pc'' then (0x80000000, True) else (0, False)),
      vaddr_read = (\<lambda>m a len. word_of_nat (unat a mod 256)),
      cpu_exec = (\<lambda>n m. m)\<rparr>"

definition example_state :: "unit sdb_state" where
  "example_state =
     \<lparr>is_batch_mode = False, nemu_state = NEMU_RUNNING, strtok_save = [],
      wp_pool = init_wp_pool 4, machine = (), trace = []\<rparr>"

section \<open>Properties\<close>

text \<open>The equations of the two digit loops are unfolded by hand.\<close>

declare hex_of_nat.simps [simp del] dec_of_nat.simps [simp del]

subsection \<open>Tokens\<close>

text \<open>A word without spaces, after any number of spaces, is the token \<^verbatim>\<open>strtok\<close>
  returns; what follows the space after the word is left for the next call.\<close>

lemma skip_spaces:
  assumes "t \<noteq> []" and "CHR '' '' \<notin> set t"
  shows "dropWhile (\<lambda>c. c = CHR '' '') (replicate k (CHR '' '') @ t @ r) = t @ r"
proof -
  from assms obtain c u where t: "t = c # u" and c: "c \<noteq> CHR '' ''"
    by (cases t) auto
  have "dropWhile (\<lambda>c. c = CHR '' '') (replicate k (CHR '' '') @ (c # u @ r)) = c # u @ r"
    using c by (induction k) simp_all
  with t show ?thesis by simp
qed

lemma strtok_in_word:
  assumes "t \<noteq> []" and "CHR '' '' \<notin> set t"
  shows "strtok_in (replicate k (CHR '' '') @ t @ CHR '' '' # r) = (Some t, r)"
proof -
  have tk: "takeWhile (\<lambda>c. c \<noteq> CHR '' '') (t @ CHR '' '' # r) = t"
    using assms(2) by (induction t) auto
  have dr: "dropWhile (\<lambda>c. c \<noteq> CHR '' '') (t @ CHR '' '' # r) = CHR '' '' # r"
    using assms(2) by (induction t) auto
  show ?thesis
    unfolding strtok_in_def skip_spaces [OF assms] using assms(1) by (simp add: tk dr)
qed

lemma strtok_in_last_word:
  assumes "t \<noteq> []" and "CHR '' '' \<notin> set t"
  shows "strtok_in (replicate k (CHR '' '') @ t) = (Some t, [])"
proof -
  have tk: "takeWhile (\<lambda>c. c \<noteq> CHR '' '') t = t"
    using assms(2) by (induction t) auto
  have dr: "dropWhile (\<lambda>c. c \<noteq> CHR '' '') t = []"
    using assms(2) by (induction t) auto
  show ?thesis
    unfolding strtok_in_def using skip_spaces [OF assms, of k "[]"] assms(1) by (simp add: tk dr)
qed

subsection \<open>The table search\<close>

lemma dispatch_token:
  "strtok_in str = (Some cmd, rest) \<Longrightarrow>
   dispatch env str s =
     search_table cmd_table env cmd (if rest = [] then None else Some rest) (s\<lparr>strtok_save := rest\<rparr>)"
  by (simp add: dispatch_def)

lemma dispatch_no_token:
  "strtok_in str = (None, rest) \<Longrightarrow> dispatch env str s = Inr (Continue, s\<lparr>strtok_save := rest\<rparr>)"
  by (simp add: dispatch_def)

lemma search_q: "search_table cmd_table env ''q'' args s = run_handler cmd_q env args s"
  by (simp add: cmd_table_def)

lemma handler_nonneg:
  "cmd_help env args s = Inr (r, s') \<Longrightarrow> r = 0"
  "cmd_c env args s = Inr (r, s') \<Longrightarrow> r = 0"
  "cmd_si env args s = Inr (r, s') \<Longrightarrow> r = 0"
  "cmd_info env args s = Inr (r, s') \<Longrightarrow> r = 0"
  "cmd_x env args s = Inr (r, s') \<Longrightarrow> r = 0"
  "cmd_p env args s = Inr (r, s') \<Longrightarrow> r = 0"
  "cmd_w env args s = Inr (r, s') \<Longrightarrow> r = 0"
  "cmd_d env args s = Inr (r, s') \<Longrightarrow> r = 0"
  "cmd_help_table env args s = Inr (r, s') \<Longrightarrow> r = 0"
  by (auto simp: cmd_help_def cmd_c_def cmd_si_def cmd_info_def cmd_x_def cmd_p_def cmd_w_def cmd_d_def cmd_help_table_def Let_def
      split: prod.splits option.splits if_splits)

lemma table_negative_is_q:
  "e \<in> set cmd_table \<Longrightarrow> snd (snd e) env args s = Inr (r, s') \<Longrightarrow> r < 0 \<Longrightarrow> fst e = ''q''"
  by (auto simp: cmd_table_def dest: handler_nonneg)

lemma run_handler_Terminate:
  "run_handler h env args s = Inr (Terminate, s') \<Longrightarrow> \<exists>r. h env args s = Inr (r, s') \<and> r < 0"
  by (auto simp: run_handler_def split: sum.splits prod.splits if_splits)

lemma search_terminate:
  "search_table cmd_table env cmd args s = Inr (Terminate, s') \<Longrightarrow> cmd = ''q''"
  by (auto simp: cmd_table_def split: if_splits dest!: run_handler_Terminate dest: handler_nonneg)

lemma dispatch_terminate:
  assumes "dispatch env str s = Inr (Terminate, s')"
  shows "fst (strtok_in str) = Some ''q''"
proof (cases "strtok_in str")
  case (Pair tok rest)
  show ?thesis
  proof (cases tok)
    case None
    with Pair assms show ?thesis by (simp add: dispatch_def)
  next
    case (Some cmd)
    with Pair assms have "search_table cmd_table env cmd (if rest = [] then None else Some rest) (s\<lparr>strtok_save := rest\<rparr>) = Inr (Terminate, s')"
      by (simp add: dispatch_def)
    then have "cmd = ''q''" by (rule search_terminate)
    with Pair Some show ?thesis by simp
  qed
qed

lemma dispatch_q:
  "strtok_in str = (Some ''q'', rest) \<Longrightarrow>
   dispatch env str s = Inr (Terminate, s\<lparr>strtok_save := rest, nemu_state := NEMU_QUIT\<rparr>)"
  by (simp add: dispatch_token search_q run_handler_def cmd_q_def)

lemma mainloop_terminate:
  "\<not> is_batch_mode s \<Longrightarrow> dispatch env str (rl_gets (Some str) s) = Inr (Terminate, s') \<Longrightarrow>
   sdb_mainloop env (str # input) s = Inr (s', input)"
  by (simp add: sdb_mainloop_def)

lemma strtok_in_Some_nonempty: "strtok_in str = (Some cmd, rest) \<Longrightarrow> str \<noteq> []"
  by (auto simp: strtok_in_def)

subsection \<open>Quitting\<close>

text \<open>
  Claim C3. Dispatching the command \<^verbatim>\<open>q\<close> sets the run-state to Quit and yields
  Terminate (first conjunct). It is the only entry of the table whose handler can return a
  negative value (second conjunct; the table-walking definition of \<^verbatim>\<open>cmd_help\<close> returns
  0 as well, third conjunct), so a line that yields Terminate has \<^verbatim>\<open>q\<close> as its command
  (fourth conjunct). When a line yields Terminate, \<^verbatim>\<open>sdb_mainloop\<close> returns at once: the
  state is the one the handler left and the rest of the input is unread (fifth conjunct);
  for \<^verbatim>\<open>q\<close> the trace grows by the one \<^verbatim>\<open>readline\<close> call that fetched the line and
  its entry in the history, and by nothing else (sixth conjunct).
\<close>

theorem q_terminates:
  "(strtok_in str = (Some ''q'', rest) \<longrightarrow>
      dispatch env str s = Inr (Terminate, s\<lparr>strtok_save := rest, nemu_state := NEMU_QUIT\<rparr>)) \<and>
   (\<forall>e \<in> set cmd_table. \<forall>args s r s'.
      snd (snd e) env args s = Inr (r, s') \<and> r < 0 \<longrightarrow> fst e = ''q'') \<and>
   (\<forall>args s r s'. cmd_help_table env args s = Inr (r, s') \<longrightarrow> r = 0) \<and>
   (\<forall>s'. dispatch env str s = Inr (Terminate, s') \<longrightarrow> fst (strtok_in str) = Some ''q'') \<and>
   (\<forall>s'. \<not> is_batch_mode s \<and> dispatch env str (rl_gets (Some str) s) = Inr (Terminate, s') \<longrightarrow>
      sdb_mainloop env (str # input) s = Inr (s', input)) \<and>
   (strtok_in str = (Some ''q'', rest) \<and> \<not> is_batch_mode s \<longrightarrow>
      sdb_mainloop env (str # input) s =
        Inr (s\<lparr>strtok_save := rest, nemu_state := NEMU_QUIT,
               trace := trace s @ [Readline, Add_history str]\<rparr>, input))"
proof (intro conjI allI impI ballI)
  assume "strtok_in str = (Some ''q'', rest)"
  then show "dispatch env str s = Inr (Terminate, s\<lparr>strtok_save := rest, nemu_state := NEMU_QUIT\<rparr>)"
    by (rule dispatch_q)
next
  fix e :: "string \<times> string \<times> 'a handler" and args s r s'
  assume "e \<in> set cmd_table" and "snd (snd e) env args s = Inr (r, s') \<and> r < 0"
  then show "fst e = ''q''" by (blast intro: table_negative_is_q)
next
  fix args s r s' assume "cmd_help_table env args s = Inr (r, s')"
  then show "r = 0" by (rule handler_nonneg)
next
  fix s' assume "dispatch env str s = Inr (Terminate, s')"
  then show "fst (strtok_in str) = Some ''q''" by (rule dispatch_terminate)
next
  fix s' assume "\<not> is_batch_mode s \<and> dispatch env str (rl_gets (Some str) s) = Inr (Terminate, s')"
  then show "sdb_mainloop env (str # input) s = Inr (s', input)"
    by (simp add: mainloop_terminate)
next
  assume a: "strtok_in str = (Some ''q'', rest) \<and> \<not> is_batch_mode s"
  then have ne: "str \<noteq> []" by (auto dest: strtok_in_Some_nonempty)
  from a have "dispatch env str (rl_gets (Some str) s) =
      Inr (Terminate, (rl_gets (Some str) s)\<lparr>strtok_save := rest, nemu_state := NEMU_QUIT\<rparr>)"
    by (simp add: dispatch_q)
  with a ne show "sdb_mainloop env (str # input) s =
        Inr (s\<lparr>strtok_save := rest, nemu_state := NEMU_QUIT,
               trace := trace s @ [Readline, Add_history str]\<rparr>, input)"
    by (simp add: sdb_mainloop_def rl_gets_def emit_def)
qed

theorem q_terminates_witness:
  "dispatch example_env ''q'' example_state =
     Inr (Terminate, example_state\<lparr>strtok_save := [], nemu_state := NEMU_QUIT\<rparr>) \<and>
   sdb_mainloop example_env [''q'', ''si 3'', ''c''] example_state =
     Inr (example_state\<lparr>strtok_save := [], nemu_state := NEMU_QUIT,
            trace := [Readline, Add_history ''q'']\<rparr>, [''si 3'', ''c''])"
proof -
  have tok: "strtok_in ''q'' = (Some ''q'', [])"
    by (simp add: strtok_in_def)
  have nb: "\<not> is_batch_mode example_state"
    by (simp add: example_state_def)
  have tr: "trace example_state = []"
    by (simp add: example_state_def)
  show ?thesis
    using q_terminates [of "''q''" "[]" example_env example_state "[''si 3'', ''c'']"] tok nb tr
    by simp
qed

subsection \<open>Reaching the handlers\<close>

lemma emit_Nil [simp]: "emit [] s = s"
  by (simp add: emit_def)

lemma search_info: "search_table cmd_table env ''info'' args s = run_handler cmd_info env args s"
  by (simp add: cmd_table_def)
lemma search_si: "search_table cmd_table env ''si'' args s = run_handler cmd_si env args s"
  by (simp add: cmd_table_def)
lemma search_x: "search_table cmd_table env ''x'' args s = run_handler cmd_x env args s"
  by (simp add: cmd_table_def)
lemma search_p: "search_table cmd_table env ''p'' args s = run_handler cmd_p env args s"
  by (simp add: cmd_table_def)
lemma search_w: "search_table cmd_table env ''w'' args s = run_handler cmd_w env args s"
  by (simp add: cmd_table_def)
lemma search_d: "search_table cmd_table env ''d'' args s = run_handler cmd_d env args s"
  by (simp add: cmd_table_def)

lemma strtok_next_save:
  "strtok_in rest = (tok, rest') \<Longrightarrow>
   strtok_next (s\<lparr>strtok_save := rest\<rparr>) = (tok, s\<lparr>strtok_save := rest'\<rparr>)"
  by (simp add: strtok_next_def)

lemmas example_scan =
  example_env_def example_sscanf_d_def example_sscanf_x_def scan_number_def is_space_def
  is_digit_def digit_value_def number_of_def

subsection \<open>Lines that stop the monitor\<close>

text \<open>
  Claim C4 says that dispatching any line completes without a crash or undefined
  behaviour, in particular \<^verbatim>\<open>info\<close> with no sub-argument and \<^verbatim>\<open>x\<close> with a count that
  does not parse. The code does not do so. For \<^verbatim>\<open>info\<close> alone \<^verbatim>\<open>strtok\<close> returns the
  null pointer and \<^verbatim>\<open>cmd_info\<close> passes it to \<^verbatim>\<open>strcmp\<close>, whatever the scanner and the
  state; for \<^verbatim>\<open>x abc 0x1000\<close> nothing is stored in \<^verbatim>\<open>n\<close> and the loop test reads it.
  The same holds of \<^verbatim>\<open>addr\<close> in \<^verbatim>\<open>x 2 zz\<close> and of \<^verbatim>\<open>n\<close> in \<^verbatim>\<open>d abc\<close>.
\<close>

theorem missing_argument_faults:
  "dispatch env ''info'' s = Inl Null_deref \<and>
   dispatch example_env ''x abc 0x1000'' example_state = Inl Uninit_read \<and>
   dispatch example_env ''x 2 zz'' example_state = Inl Uninit_read \<and>
   dispatch example_env ''d abc'' example_state = Inl Uninit_read"
proof (intro conjI)
  have "strtok_in ''info'' = (Some ''info'', [])" by (simp add: strtok_in_def)
  then show "dispatch env ''info'' s = Inl Null_deref"
    by (simp add: dispatch_token search_info run_handler_def cmd_info_def strtok_next_def strtok_in_def)
next
  have t0: "strtok_in ''x abc 0x1000'' = (Some ''x'', ''abc 0x1000'')" by (simp add: strtok_in_def)
  have t1: "strtok_in ''abc 0x1000'' = (Some ''abc'', ''0x1000'')" by (simp add: strtok_in_def)
  have t2: "strtok_in ''0x1000'' = (Some ''0x1000'', [])" by (simp add: strtok_in_def)
  have sc: "sscanf_d example_env ''abc'' = None" by (simp add: example_scan)
  show "dispatch example_env ''x abc 0x1000'' example_state = Inl Uninit_read"
    by (simp add: dispatch_token [OF t0] search_x run_handler_def cmd_x_def
        strtok_next_save [OF t1] strtok_next_save [OF t2] sc)
next
  have t0: "strtok_in ''x 2 zz'' = (Some ''x'', ''2 zz'')" by (simp add: strtok_in_def)
  have t1: "strtok_in ''2 zz'' = (Some ''2'', ''zz'')" by (simp add: strtok_in_def)
  have t2: "strtok_in ''zz'' = (Some ''zz'', [])" by (simp add: strtok_in_def)
  have sc: "sscanf_d example_env ''2'' = Some 2" "sscanf_x example_env ''zz'' = None"
    by (simp_all add: example_scan)
  show "dispatch example_env ''x 2 zz'' example_state = Inl Uninit_read"
    by (simp add: dispatch_token [OF t0] search_x run_handler_def cmd_x_def
        strtok_next_save [OF t1] strtok_next_save [OF t2] sc)
next
  have t0: "strtok_in ''d abc'' = (Some ''d'', ''abc'')" by (simp add: strtok_in_def)
  have t1: "strtok_in ''abc'' = (Some ''abc'', [])" by (simp add: strtok_in_def)
  have sc: "sscanf_d example_env ''abc'' = None" by (simp add: example_scan)
  show "dispatch example_env ''d abc'' example_state = Inl Uninit_read"
    by (simp add: dispatch_token [OF t0] search_d run_handler_def cmd_d_def
        strtok_next_save [OF t1] sc)
qed

subsection \<open>\<^verbatim>\<open>info\<close>\<close>

lemma cmd_info_token:
  "strtok_in rest = (Some a, rest') \<Longrightarrow>
   cmd_info env args (s\<lparr>strtok_save := rest\<rparr>) =
     Inr (0, emit (if a = ''w'' then [Printf ''info r: print the information of registers\<newline>'']
                   else if a = ''r'' then [Isa_reg_display] else [])
               (s\<lparr>strtok_save := rest'\<rparr>))"
  by (simp add: cmd_info_def strtok_next_save)

text \<open>
  Claim C5, as stated, says that every sub-argument of \<^verbatim>\<open>info\<close> other than \<^verbatim>\<open>r\<close>
  prints the usage text. \<^verbatim>\<open>info z\<close> prints nothing: the trace stays empty.
\<close>

theorem info_other_argument_counterexample:
  "dispatch example_env ''info z'' example_state =
     Inr (Continue, example_state\<lparr>strtok_save := []\<rparr>) \<and>
   trace (example_state\<lparr>strtok_save := []\<rparr>) = []"
proof -
  have t0: "strtok_in ''info z'' = (Some ''info'', ''z'')" by (simp add: strtok_in_def)
  have t1: "strtok_in ''z'' = (Some ''z'', [])" by (simp add: strtok_in_def)
  have "dispatch example_env ''info z'' example_state =
      Inr (Continue, example_state\<lparr>strtok_save := []\<rparr>)"
    by (simp add: dispatch_token [OF t0] search_info run_handler_def cmd_info_token [OF t1])
  moreover have "trace (example_state\<lparr>strtok_save := []\<rparr>) = []"
    by (simp add: example_state_def)
  ultimately show ?thesis by simp
qed

text \<open>
  Claim C5, amended. With the sub-argument \<^verbatim>\<open>r\<close> the command asks the register
  subsystem for a dump of the registers; with \<^verbatim>\<open>w\<close> it prints the usage text and inspects
  nothing; with any other sub-argument it prints nothing and inspects nothing.
\<close>

theorem info_subcommands:
  assumes "strtok_in str = (Some ''info'', rest)" and "strtok_in rest = (Some a, rest')"
  shows "dispatch env str s =
     Inr (Continue,
          emit (if a = ''r'' then [Isa_reg_display]
                else if a = ''w'' then [Printf ''info r: print the information of registers\<newline>'']
                else [])
            (s\<lparr>strtok_save := rest'\<rparr>))"
  using assms
  by (simp add: dispatch_token search_info run_handler_def cmd_info_token)

theorem info_subcommands_witness:
  "dispatch example_env ''info r'' example_state =
     Inr (Continue, example_state\<lparr>strtok_save := [], trace := [Isa_reg_display]\<rparr>) \<and>
   dispatch example_env ''info w'' example_state =
     Inr (Continue, example_state\<lparr>strtok_save := [],
        trace := [Printf ''info r: print the information of registers\<newline>'']\<rparr>) \<and>
   dispatch example_env ''info z'' example_state =
     Inr (Continue, example_state\<lparr>strtok_save := [], trace := []\<rparr>)"
proof -
  have r0: "strtok_in ''info r'' = (Some ''info'', ''r'')" by (simp add: strtok_in_def)
  have r1: "strtok_in ''r'' = (Some ''r'', [])" by (simp add: strtok_in_def)
  have w0: "strtok_in ''info w'' = (Some ''info'', ''w'')" by (simp add: strtok_in_def)
  have w1: "strtok_in ''w'' = (Some ''w'', [])" by (simp add: strtok_in_def)
  have z0: "strtok_in ''info z'' = (Some ''info'', ''z'')" by (simp add: strtok_in_def)
  have z1: "strtok_in ''z'' = (Some ''z'', [])" by (simp add: strtok_in_def)
  have tr: "trace example_state = []" by (simp add: example_state_def)
  show ?thesis
    using info_subcommands [OF r0 r1, of example_env example_state]
      info_subcommands [OF w0 w1, of example_env example_state]
      info_subcommands [OF z0 z1, of example_env example_state] tr
    by (simp add: emit_def)
qed

subsection \<open>Blank lines\<close>

lemma strtok_in_spaces:
  "\<forall>c \<in> set str. c = CHR '' '' \<Longrightarrow> strtok_in str = (None, [])"
  by (simp add: strtok_in_def)

text \<open>
  Claim C9, as stated, says that every line of white space only is ignored silently.
  \<^verbatim>\<open>strtok\<close> is called with the delimiter \<^verbatim>\<open>" "\<close>, so a line that holds one
  tabulator, which is white space, has that tabulator as its command, and it is reported
  as unknown.
\<close>

theorem tab_line_counterexample:
  "list_all is_space [CHR 0x09] \<and>
   dispatch example_env [CHR 0x09] example_state =
     Inr (Continue, example_state\<lparr>strtok_save := [],
        trace := [Printf (''Unknown command '' @ [CHR 0x27, CHR 0x09, CHR 0x27] @ ''\<newline>'')]\<rparr>)"
proof -
  have t0: "strtok_in [CHR 0x09] = (Some [CHR 0x09], [])" by (simp add: strtok_in_def)
  have "dispatch example_env [CHR 0x09] example_state =
      Inr (Continue, emit [Printf (''Unknown command '' @ [CHR 0x27, CHR 0x09, CHR 0x27] @ ''\<newline>'')]
             (example_state\<lparr>strtok_save := []\<rparr>))"
    by (simp add: dispatch_token [OF t0] cmd_table_def)
  then show ?thesis
    by (simp add: emit_def example_state_def is_space_def)
qed

text \<open>
  Claim C9, amended. For every line that consists of space characters only (the empty line
  among them) the loop goes on to the next line: no handler runs and nothing is printed,
  the state changes in the position \<^verbatim>\<open>strtok\<close> saves and nowhere else.
\<close>

theorem blank_line_ignored:
  assumes "\<forall>c \<in> set str. c = CHR '' ''"
  shows "dispatch env str s = Inr (Continue, s\<lparr>strtok_save := []\<rparr>)"
  using assms by (simp add: dispatch_no_token strtok_in_spaces)

theorem blank_line_ignored_witness:
  "dispatch example_env ''   '' example_state = Inr (Continue, example_state\<lparr>strtok_save := []\<rparr>) \<and>
   dispatch example_env [] example_state = Inr (Continue, example_state\<lparr>strtok_save := []\<rparr>)"
  using blank_line_ignored [of "''   ''" example_env example_state]
    blank_line_ignored [of "[]" example_env example_state]
  by simp

subsection \<open>\<^verbatim>\<open>p\<close>\<close>

lemma cmd_p_token:
  "strtok_in rest = (Some a, rest') \<Longrightarrow>
   cmd_p env args (s\<lparr>strtok_save := rest\<rparr>) =
     Inr (0, emit [Isa_reg_str2val a,
                   Printf (if snd (isa_reg_str2val env (machine s) a)
                           then fmt_d (fst (isa_reg_str2val env (machine s) a)) @ ''\<newline>''
                           else ''Invalid expression\<newline>'')]
               (s\<lparr>strtok_save := rest'\<rparr>))"
  by (simp add: cmd_p_def strtok_next_save emit_def split: prod.splits)

text \<open>
  Claim C6, as stated, has the first white-space-delimited token evaluated. The handler
  takes its token with \<^verbatim>\<open>strtok(NULL, " ")\<close>: in the line \<^verbatim>\<open>p\<close>, space, tabulator,
  space, \<^verbatim>\<open>pc\<close> the first white-space-delimited token of the arguments is \<^verbatim>\<open>pc\<close>,
  which evaluates, but the token evaluated is the tabulator, and the text printed is
  \<^verbatim>\<open>Invalid expression\<close> and a newline.
\<close>

theorem p_tab_counterexample:
  "first_ws_token [CHR 0x09, CHR '' '', CHR ''p'', CHR ''c''] = Some ''pc'' \<and>
   isa_reg_str2val example_env () ''pc'' = (0x80000000, True) \<and>
   dispatch example_env [CHR ''p'', CHR '' '', CHR 0x09, CHR '' '', CHR ''p'', CHR ''c''] example_state =
     Inr (Continue, example_state\<lparr>strtok_save := ''pc'',
        trace := [Isa_reg_str2val [CHR 0x09], Printf ''Invalid expression\<newline>'']\<rparr>)"
proof -
  have a0: "strtok_in [CHR ''p'', CHR '' '', CHR 0x09, CHR '' '', CHR ''p'', CHR ''c''] =
      (Some ''p'', [CHR 0x09, CHR '' '', CHR ''p'', CHR ''c''])"
    by (simp add: strtok_in_def)
  have a1: "strtok_in [CHR 0x09, CHR '' '', CHR ''p'', CHR ''c''] = (Some [CHR 0x09], ''pc'')"
    by (simp add: strtok_in_def)
  have ev: "isa_reg_str2val example_env m [CHR 0x09] = (0, False)"
    "isa_reg_str2val example_env m ''pc'' = (0x80000000, True)" for m
    by (simp_all add: example_env_def)
  have ws: "first_ws_token [CHR 0x09, CHR '' '', CHR ''p'', CHR ''c''] = Some ''pc''"
    by (simp add: first_ws_token_def is_space_def)
  have "dispatch example_env [CHR ''p'', CHR '' '', CHR 0x09, CHR '' '', CHR ''p'', CHR ''c''] example_state =
      Inr (Continue, emit [Isa_reg_str2val [CHR 0x09], Printf ''Invalid expression\<newline>'']
             (example_state\<lparr>strtok_save := ''pc''\<rparr>))"
    by (simp add: dispatch_token [OF a0] search_p run_handler_def cmd_p_token [OF a1] ev)
  also have "emit [Isa_reg_str2val [CHR 0x09], Printf ''Invalid expression\<newline>'']
             (example_state\<lparr>strtok_save := ''pc''\<rparr>) =
      example_state\<lparr>strtok_save := ''pc'',
        trace := [Isa_reg_str2val [CHR 0x09], Printf ''Invalid expression\<newline>'']\<rparr>"
    by (simp add: emit_def example_state_def)
  finally show ?thesis using ws ev by simp
qed

text \<open>
  Claim C6, amended. For every dispatched \<^verbatim>\<open>p EXPR\<close> whose first space-delimited token
  \<open>a\<close> exists, the token is evaluated by the simulator; on success the value is printed
  (as a signed decimal number and a newline), on failure the line
  \<^verbatim>\<open>Invalid expression\<close> is printed; the handler does nothing else: the trace grows by
  the evaluation and the one \<^verbatim>\<open>printf\<close>, and only the position of \<^verbatim>\<open>strtok\<close> changes
  in the rest of the state.
\<close>

theorem p_evaluates_and_prints:
  assumes "strtok_in str = (Some ''p'', rest)" and "strtok_in rest = (Some a, rest')"
  shows "dispatch env str s =
     Inr (Continue,
          emit [Isa_reg_str2val a,
                Printf (if snd (isa_reg_str2val env (machine s) a)
                        then fmt_d (fst (isa_reg_str2val env (machine s) a)) @ ''\<newline>''
                        else ''Invalid expression\<newline>'')]
            (s\<lparr>strtok_save := rest'\<rparr>))"
  using assms
  by (simp add: dispatch_token search_p run_handler_def cmd_p_token)

theorem p_evaluates_and_prints_witness:
  "dispatch example_env ''p pc'' example_state =
     Inr (Continue, example_state\<lparr>strtok_save := [],
        trace := [Isa_reg_str2val ''pc'', Printf ''-2147483648\<newline>'']\<rparr>) \<and>
   dispatch example_env ''p 1+'' example_state =
     Inr (Continue, example_state\<lparr>strtok_save := [],
        trace := [Isa_reg_str2val ''1+'', Printf ''Invalid expression\<newline>'']\<rparr>)"
proof -
  have a0: "strtok_in ''p pc'' = (Some ''p'', ''pc'')" by (simp add: strtok_in_def)
  have a1: "strtok_in ''pc'' = (Some ''pc'', [])" by (simp add: strtok_in_def)
  have b0: "strtok_in ''p 1+'' = (Some ''p'', ''1+'')" by (simp add: strtok_in_def)
  have b1: "strtok_in ''1+'' = (Some ''1+'', [])" by (simp add: strtok_in_def)
  have ev: "isa_reg_str2val example_env m ''pc'' = (0x80000000, True)"
    "isa_reg_str2val example_env m ''1+'' = (0, False)" for m
    by (simp_all add: example_env_def)
  have fm: "fmt_d 0x80000000 = ''-2147483648''"
    by (simp add: fmt_d_def dec_digit_def dec_of_nat.simps)
  have tr: "trace example_state = []" by (simp add: example_state_def)
  show ?thesis
    using p_evaluates_and_prints [OF a0 a1, of example_env example_state]
      p_evaluates_and_prints [OF b0 b1, of example_env example_state] tr
    by (simp add: emit_def ev fm)
qed

subsection \<open>\<^verbatim>\<open>si\<close>\<close>

lemma cmd_si_token:
  "strtok_in rest = (tok, rest') \<Longrightarrow>
   cmd_si env args (s\<lparr>strtok_save := rest\<rparr>) =
     Inr (0, call_cpu_exec env
               (case tok of None \<Rightarrow> 1
                | Some a \<Rightarrow> (case sscanf_d env a of None \<Rightarrow> 1 | Some v \<Rightarrow> v))
               (s\<lparr>strtok_save := rest'\<rparr>))"
  by (simp add: cmd_si_def strtok_next_save)

lemma dispatch_si:
  "strtok_in str = (Some ''si'', rest) \<Longrightarrow> strtok_in rest = (tok, rest') \<Longrightarrow>
   dispatch env str s =
     Inr (Continue, call_cpu_exec env
               (case tok of None \<Rightarrow> 1
                | Some a \<Rightarrow> (case sscanf_d env a of None \<Rightarrow> 1 | Some v \<Rightarrow> v))
               (s\<lparr>strtok_save := rest'\<rparr>))"
  by (simp add: dispatch_token search_si run_handler_def cmd_si_token)

text \<open>
  Claim C8, as stated, has the first white-space-delimited token of the arguments scanned.
  In the line \<^verbatim>\<open>si\<close>, space, tabulator, space, \<^verbatim>\<open>5\<close> that token is \<^verbatim>\<open>5\<close>, which
  scans to 5; the handler's token is the tabulator, of which \<^verbatim>\<open>sscanf\<close> stores nothing,
  and one instruction is requested.
\<close>

theorem si_tab_counterexample:
  "first_ws_token [CHR 0x09, CHR '' '', CHR ''5''] = Some ''5'' \<and>
   sscanf_d example_env ''5'' = Some 5 \<and>
   dispatch example_env [CHR ''s'', CHR ''i'', CHR '' '', CHR 0x09, CHR '' '', CHR ''5''] example_state =
     Inr (Continue, example_state\<lparr>strtok_save := ''5'', trace := [Cpu_exec 1]\<rparr>)"
proof -
  have a0: "strtok_in [CHR ''s'', CHR ''i'', CHR '' '', CHR 0x09, CHR '' '', CHR ''5''] =
      (Some ''si'', [CHR 0x09, CHR '' '', CHR ''5''])"
    by (simp add: strtok_in_def)
  have a1: "strtok_in [CHR 0x09, CHR '' '', CHR ''5''] = (Some [CHR 0x09], ''5'')"
    by (simp add: strtok_in_def)
  have sc: "sscanf_d example_env [CHR 0x09] = None" "sscanf_d example_env ''5'' = Some 5"
    by (simp_all add: example_scan)
  have ws: "first_ws_token [CHR 0x09, CHR '' '', CHR ''5''] = Some ''5''"
    by (simp add: first_ws_token_def is_space_def)
  have "dispatch example_env [CHR ''s'', CHR ''i'', CHR '' '', CHR 0x09, CHR '' '', CHR ''5''] example_state =
      Inr (Continue, call_cpu_exec example_env 1 (example_state\<lparr>strtok_save := ''5''\<rparr>))"
    by (simp add: dispatch_si [OF a0 a1] sc)
  also have "call_cpu_exec example_env 1 (example_state\<lparr>strtok_save := ''5''\<rparr>) =
      example_state\<lparr>strtok_save := ''5'', trace := [Cpu_exec 1]\<rparr>"
    by (simp add: call_cpu_exec_def emit_def example_env_def example_state_def)
  finally show ?thesis using ws sc by simp
qed

text \<open>
  Claim C8, amended. For every dispatched \<^verbatim>\<open>si\<close> the first space-delimited token of
  the arguments is scanned as an integer \<open>N\<close>; without a token, or with one of which
  nothing is stored, \<open>N = 1\<close>; \<^verbatim>\<open>cpu_exec(N)\<close> is the one request made; and \<^verbatim>\<open>si\<close>
  alone does what \<^verbatim>\<open>si 1\<close> does.
\<close>

theorem si_steps:
  assumes "strtok_in str = (Some ''si'', rest)" and "strtok_in rest = (tok, rest')"
  shows
    "(tok = None \<longrightarrow>
        dispatch env str s = Inr (Continue, call_cpu_exec env 1 (s\<lparr>strtok_save := rest'\<rparr>))) \<and>
     (\<forall>a. tok = Some a \<and> sscanf_d env a = None \<longrightarrow>
        dispatch env str s = Inr (Continue, call_cpu_exec env 1 (s\<lparr>strtok_save := rest'\<rparr>))) \<and>
     (\<forall>a n. tok = Some a \<and> sscanf_d env a = Some n \<longrightarrow>
        dispatch env str s = Inr (Continue, call_cpu_exec env n (s\<lparr>strtok_save := rest'\<rparr>))) \<and>
     (\<forall>n. trace (call_cpu_exec env n (s\<lparr>strtok_save := rest'\<rparr>)) = trace s @ [Cpu_exec n]) \<and>
     (sscanf_d env ''1'' = Some 1 \<longrightarrow> dispatch env ''si'' s = dispatch env ''si 1'' s)"
proof (intro conjI allI impI)
  assume "tok = None"
  with assms show "dispatch env str s = Inr (Continue, call_cpu_exec env 1 (s\<lparr>strtok_save := rest'\<rparr>))"
    by (simp add: dispatch_si)
next
  fix a assume "tok = Some a \<and> sscanf_d env a = None"
  with assms show "dispatch env str s = Inr (Continue, call_cpu_exec env 1 (s\<lparr>strtok_save := rest'\<rparr>))"
    by (simp add: dispatch_si)
next
  fix a n assume "tok = Some a \<and> sscanf_d env a = Some n"
  with assms show "dispatch env str s = Inr (Continue, call_cpu_exec env n (s\<lparr>strtok_save := rest'\<rparr>))"
    by (simp add: dispatch_si)
next
  fix n show "trace (call_cpu_exec env n (s\<lparr>strtok_save := rest'\<rparr>)) = trace s @ [Cpu_exec n]"
    by (simp add: call_cpu_exec_def emit_def)
next
  assume one: "sscanf_d env ''1'' = Some 1"
  have a0: "strtok_in ''si'' = (Some ''si'', [])" by (simp add: strtok_in_def)
  have a1: "strtok_in [] = (None, [])" by (simp add: strtok_in_def)
  have b0: "strtok_in ''si 1'' = (Some ''si'', ''1'')" by (simp add: strtok_in_def)
  have b1: "strtok_in ''1'' = (Some ''1'', [])" by (simp add: strtok_in_def)
  show "dispatch env ''si'' s = dispatch env ''si 1'' s"
    by (simp add: dispatch_si [OF a0 a1] dispatch_si [OF b0 b1] one)
qed

theorem si_steps_witness:
  "dispatch example_env ''si 5'' example_state =
     Inr (Continue, example_state\<lparr>strtok_save := [], trace := [Cpu_exec 5]\<rparr>) \<and>
   dispatch example_env ''si'' example_state =
     Inr (Continue, example_state\<lparr>strtok_save := [], trace := [Cpu_exec 1]\<rparr>) \<and>
   dispatch example_env ''si five'' example_state =
     Inr (Continue, example_state\<lparr>strtok_save := [], trace := [Cpu_exec 1]\<rparr>) \<and>
   dispatch example_env ''si'' example_state = dispatch example_env ''si 1'' example_state"
proof -
  have a0: "strtok_in ''si 5'' = (Some ''si'', ''5'')" by (simp add: strtok_in_def)
  have a1: "strtok_in ''5'' = (Some ''5'', [])" by (simp add: strtok_in_def)
  have b0: "strtok_in ''si'' = (Some ''si'', [])" by (simp add: strtok_in_def)
  have b1: "strtok_in [] = (None, [])" by (simp add: strtok_in_def)
  have c0: "strtok_in ''si five'' = (Some ''si'', ''five'')" by (simp add: strtok_in_def)
  have c1: "strtok_in ''five'' = (Some ''five'', [])" by (simp add: strtok_in_def)
  have sc: "sscanf_d example_env ''5'' = Some 5" "sscanf_d example_env ''five'' = None"
    "sscanf_d example_env ''1'' = Some 1"
    by (simp_all add: example_scan)
  have ex: "call_cpu_exec example_env n (example_state\<lparr>strtok_save := []\<rparr>) =
      example_state\<lparr>strtok_save := [], trace := [Cpu_exec n]\<rparr>" for n
    by (simp add: call_cpu_exec_def emit_def example_env_def example_state_def)
  show ?thesis
    using si_steps [OF a0 a1, of example_env example_state]
      si_steps [OF b0 b1, of example_env example_state]
      si_steps [OF c0 c1, of example_env example_state] sc ex
    by simp
qed

subsection \<open>\<^verbatim>\<open>x\<close>: the two loops\<close>

lemma emit_emit: "emit b (emit a s) = emit (a @ b) s"
  by (simp add: emit_def)

lemma machine_emit [simp]: "machine (emit es s) = machine s"
  by (simp add: emit_def)

lemma upt_Suc_shift: "[0..<Suc k] = 0 # map Suc [0..<k]"
  by (simp add: upt_conv_Cons map_Suc_upt del: upt_Suc)

lemma x_bytes_spec:
  "x_bytes env k (s, addr) =
     (emit (concat (map (\<lambda>j. x_byte_spec env (machine s) (addr + of_nat j)) [0..<k])) s,
      addr + of_nat k)"
proof (induction k arbitrary: s addr)
  case 0
  show ?case by (simp add: emit_def)
next
  case (Suc k)
  have "x_bytes env (Suc k) (s, addr) = x_bytes env k (emit (x_byte_spec env (machine s) addr) s, addr + 1)"
    by (simp add: x_byte_spec_def)
  also have "\<dots> = (emit (x_byte_spec env (machine s) addr @
                     concat (map (\<lambda>j. x_byte_spec env (machine s) (addr + 1 + of_nat j)) [0..<k])) s,
                  addr + 1 + of_nat k)"
    by (simp add: Suc.IH emit_emit)
  also have "\<dots> = (emit (concat (map (\<lambda>j. x_byte_spec env (machine s) (addr + of_nat j)) [0..<Suc k])) s,
                  addr + of_nat (Suc k))"
    by (simp add: upt_Suc_shift comp_def add.assoc del: upt_Suc)
  finally show ?case .
qed

lemma x_bytes_4:
  "x_bytes env 4 (s, addr) =
     (emit (concat (map (\<lambda>j. x_byte_spec env (machine s) (addr + of_nat j)) [0..<4])) s, addr + 4)"
  using x_bytes_spec [of env 4 s addr] by simp

lemma x_row_spec_shift: "x_row_spec env m (addr + 4) = (\<lambda>i. x_row_spec env m addr (Suc i))"
  by (rule ext) (simp add: x_row_spec_def algebra_simps)

lemma x_row_step:
  "(let s1 = emit [Printf (''0x'' @ fmt_08x addr @ '': '')] s;
        (s2, addr2) = x_bytes env 4 (s1, addr);
        s3 = emit [Printf ''\<newline>''] s2
    in (s3, addr2)) = (emit (x_row_spec env (machine s) addr 0) s, addr + 4)"
  by (simp add: x_bytes_4 emit_emit x_row_spec_def Let_def del: upt_Suc)

lemma x_rows_spec:
  "x_rows env n (s, addr) =
     (emit (x_dump_spec env (machine s) addr n) s, addr + 4 * of_nat n)"
proof (induction n arbitrary: s addr)
  case 0
  show ?case by (simp add: x_dump_spec_def)
next
  case (Suc n)
  have "x_rows env (Suc n) (s, addr) =
      x_rows env n (emit (x_row_spec env (machine s) addr 0) s, addr + 4)"
    using x_row_step [of addr s env] by (simp add: Let_def split: prod.splits)
  also have "\<dots> = (emit (x_row_spec env (machine s) addr 0 @ x_dump_spec env (machine s) (addr + 4) n) s,
       addr + 4 + 4 * of_nat n)"
    by (simp add: Suc.IH emit_emit)
  also have "x_row_spec env (machine s) addr 0 @ x_dump_spec env (machine s) (addr + 4) n =
       x_dump_spec env (machine s) addr (Suc n)"
    by (simp add: x_dump_spec_def upt_Suc_shift comp_def x_row_spec_shift del: upt_Suc)
  finally show ?case by (simp add: algebra_simps)
qed

lemma printed_append: "printed (a @ b) = printed a @ printed b"
  by (induction a rule: printed.induct) simp_all

lemma reads_append: "reads (a @ b) = reads a @ reads b"
  by (induction a rule: reads.induct) simp_all

lemma newlines_append: "newlines (a @ b) = newlines a + newlines b"
  by (simp add: newlines_def)

lemma hex_digit_not_newline: "hex_digit d \<noteq> CHR ''\<newline>''"
proof -
  have "hex_digit d \<in> set ''0123456789abcdef''"
    unfolding hex_digit_def by (rule nth_mem) simp
  then show ?thesis by auto
qed

lemma newlines_hex_of_nat: "newlines (hex_of_nat n) = 0"
proof (induction n rule: hex_of_nat.induct)
  case (1 n)
  show ?case
  proof (cases "n < 16")
    case True
    then show ?thesis
      by (subst hex_of_nat.simps) (simp add: newlines_def hex_digit_not_newline)
  next
    case False
    with "1" have "newlines (hex_of_nat (n div 16)) = 0" by simp
    with False show ?thesis
      by (subst hex_of_nat.simps) (simp add: newlines_def hex_digit_not_newline)
  qed
qed

lemma newlines_zero_pad: "newlines (zero_pad w t) = newlines t"
  by (simp add: zero_pad_def newlines_def)

lemma newlines_fmt [simp]: "newlines (fmt_08x v) = 0" "newlines (fmt_02x v) = 0"
  by (simp_all add: fmt_08x_def fmt_02x_def newlines_zero_pad newlines_hex_of_nat)

lemma newlines_Cons: "newlines (c # t) = (if c = CHR ''\<newline>'' then 1 else 0) + newlines t"
  by (simp add: newlines_def)

lemma newlines_Nil [simp]: "newlines [] = 0"
  by (simp add: newlines_def)

lemma newlines_x_byte: "newlines (printed (x_byte_spec env m a)) = 0"
  by (simp add: x_byte_spec_def newlines_append newlines_Cons)

lemma reads_x_byte: "reads (x_byte_spec env m a) = [a]"
  by (simp add: x_byte_spec_def)

lemma upt_4: "[0..<4] = [0, 1, 2, 3]"
  by (simp add: upt_rec)

lemma newlines_x_row: "newlines (printed (x_row_spec env m addr i)) = 1"
  by (simp add: x_row_spec_def upt_4 printed_append newlines_append newlines_x_byte newlines_Cons
      del: upt_Suc)

lemma reads_x_row:
  "reads (x_row_spec env m addr i) = map (\<lambda>j. addr + of_nat (4 * i + j)) [0..<4]"
  by (simp add: x_row_spec_def upt_4 reads_append reads_x_byte algebra_simps del: upt_Suc)

lemma x_dump_spec_Suc:
  "x_dump_spec env m addr (Suc n) = x_dump_spec env m addr n @ x_row_spec env m addr n"
  by (simp add: x_dump_spec_def)

lemma newlines_x_dump: "newlines (printed (x_dump_spec env m addr n)) = n"
  by (induction n)
     (simp_all add: x_dump_spec_Suc printed_append newlines_append newlines_x_row,
      simp add: x_dump_spec_def)

lemma upt_4_step: "[0..<4 * Suc n] = [0..<4 * n] @ map (\<lambda>j. 4 * n + j) [0..<4]"
proof -
  have "[0..<4 * n + 4] = [0..<4 * n] @ [4 * n..<4 * n + 4]"
    by (rule upt_add_eq_append) simp
  moreover have "[4 * n..<4 * n + 4] = map (\<lambda>j. 4 * n + j) [0..<4]"
    by (simp add: map_add_upt add.commute)
  moreover have "4 * Suc n = 4 * n + 4" by simp
  ultimately show ?thesis by (simp only:)
qed

lemma reads_x_dump:
  "reads (x_dump_spec env m addr n) = map (\<lambda>k. addr + of_nat k) [0..<4 * n]"
proof (induction n)
  case 0
  show ?case by (simp add: x_dump_spec_def)
next
  case (Suc n)
  show ?case
    unfolding x_dump_spec_Suc reads_append Suc.IH reads_x_row upt_4_step
    by (simp add: comp_def del: upt_Suc of_nat_add of_nat_mult)
qed


lemma cmd_x_tokens:
  "strtok_in rest = (tok1, rest1) \<Longrightarrow> strtok_in rest1 = (tok2, rest2) \<Longrightarrow>
   cmd_x env args (s\<lparr>strtok_save := rest\<rparr>) =
     (case (tok1, tok2) of
        (Some a1, Some a2) \<Rightarrow>
          (case sscanf_d env a1 of
             None \<Rightarrow> Inl Uninit_read
           | Some n \<Rightarrow>
               if 0 < n then
                 (case sscanf_x env a2 of
                    None \<Rightarrow> Inl Uninit_read
                  | Some addr \<Rightarrow>
                      Inr (0, emit (x_dump_spec env (machine s) addr (nat n))
                                (s\<lparr>strtok_save := rest2\<rparr>)))
               else Inr (0, s\<lparr>strtok_save := rest2\<rparr>))
      | _ \<Rightarrow> Inr (0, emit [Printf ''x N EXPR: scan memory\<newline>''] (s\<lparr>strtok_save := rest2\<rparr>)))"
  by (simp add: cmd_x_def strtok_next_save x_rows_spec split: option.splits)

lemma dispatch_x:
  "strtok_in str = (Some ''x'', rest) \<Longrightarrow>
   dispatch env str s = run_handler cmd_x env (if rest = [] then None else Some rest) (s\<lparr>strtok_save := rest\<rparr>)"
  by (simp add: dispatch_token search_x)

lemma printed_x_row:
  "printed (x_row_spec env m addr i) =
     ''0x'' @ fmt_08x (addr + 4 * of_nat i) @ '': '' @
     concat (map (\<lambda>j. ''0x'' @ fmt_02x (vaddr_read env m (addr + 4 * of_nat i + of_nat j) 1) @ '' '')
               [0..<4]) @ ''\<newline>''"
  by (simp add: x_row_spec_def x_byte_spec_def upt_4 printed_append del: upt_Suc)

text \<open>
  Claim C7 says that every dispatched \<^verbatim>\<open>x N ADDR\<close> with both arguments present and
  \<open>N\<close> scanning to a positive integer prints \<open>N\<close> rows, the first starting at
  \<open>ADDR\<close>. The code does so only when \<open>ADDR\<close> scans as well. In \<^verbatim>\<open>x 2 zz\<close> both
  tokens are there and \<open>N\<close> scans to 2, but \<^verbatim>\<open>sscanf(arg2, "%x", &addr)\<close> stores
  nothing, its result is not tested, and the first row reads \<^verbatim>\<open>addr\<close>, which was never
  written.
\<close>

theorem x_unparsable_address_faults:
  "sscanf_d example_env ''2'' = Some 2 \<and> sscanf_x example_env ''zz'' = None \<and>
   dispatch example_env ''x 2 zz'' example_state = Inl Uninit_read"
proof -
  have t0: "strtok_in ''x 2 zz'' = (Some ''x'', ''2 zz'')" by (simp add: strtok_in_def)
  have t1: "strtok_in ''2 zz'' = (Some ''2'', ''zz'')" by (simp add: strtok_in_def)
  have t2: "strtok_in ''zz'' = (Some ''zz'', [])" by (simp add: strtok_in_def)
  have sc: "sscanf_d example_env ''2'' = Some 2" "sscanf_x example_env ''zz'' = None"
    by (simp_all add: example_scan)
  have "dispatch example_env ''x 2 zz'' example_state = Inl Uninit_read"
    by (simp add: dispatch_x [OF t0] run_handler_def cmd_x_tokens [OF t1 t2] sc)
  with sc show ?thesis by simp
qed

text \<open>
  When the address scans as well, the dump is the one described. For every dispatched
  \<^verbatim>\<open>x N ADDR\<close> where both tokens are there, \<open>N\<close> scans
  to a positive integer \<open>n\<close> and \<open>ADDR\<close> scans to the address \<open>addr\<close>, the handler
  does what \<open>x_dump_spec\<close> lists: \<open>n\<close> rows, row \<open>i\<close> being the label of
  \<open>addr + 4 * i\<close> in hexadecimal, four bytes read one at a time at the next four addresses,
  and the end of the line. The text printed holds \<open>n\<close> newlines, the addresses read are
  \<open>addr, addr + 1, \<dots>\<close>, \<open>4 * n\<close> of them in this order (the addition is that of 32-bit
  words). When either token is missing the usage line is the only event: no memory is
  read.
\<close>

theorem x_dumps_rows:
  assumes "strtok_in str = (Some ''x'', rest)"
    and "strtok_in rest = (tok1, rest1)" and "strtok_in rest1 = (tok2, rest2)"
  shows
    "(\<forall>a1 a2 n addr.
        tok1 = Some a1 \<and> tok2 = Some a2 \<and> sscanf_d env a1 = Some n \<and> 0 < n \<and>
        sscanf_x env a2 = Some addr \<longrightarrow>
        dispatch env str s =
          Inr (Continue, emit (x_dump_spec env (machine s) addr (nat n)) (s\<lparr>strtok_save := rest2\<rparr>)) \<and>
        newlines (printed (x_dump_spec env (machine s) addr (nat n))) = nat n \<and>
        reads (x_dump_spec env (machine s) addr (nat n)) =
          map (\<lambda>k. addr + of_nat k) [0..<4 * nat n] \<and>
        (\<forall>i. printed (x_row_spec env (machine s) addr i) =
           ''0x'' @ fmt_08x (addr + 4 * of_nat i) @ '': '' @
           concat (map (\<lambda>j. ''0x'' @
                     fmt_02x (vaddr_read env (machine s) (addr + 4 * of_nat i + of_nat j) 1) @ '' '')
                   [0..<4]) @ ''\<newline>'')) \<and>
     (tok1 = None \<or> tok2 = None \<longrightarrow>
        dispatch env str s =
          Inr (Continue, emit [Printf ''x N EXPR: scan memory\<newline>''] (s\<lparr>strtok_save := rest2\<rparr>)))"
proof (intro conjI allI impI)
  fix a1 a2 n addr
  assume h: "tok1 = Some a1 \<and> tok2 = Some a2 \<and> sscanf_d env a1 = Some n \<and> 0 < n \<and>
        sscanf_x env a2 = Some addr"
  with assms show "dispatch env str s =
          Inr (Continue, emit (x_dump_spec env (machine s) addr (nat n)) (s\<lparr>strtok_save := rest2\<rparr>))"
    by (simp add: dispatch_x run_handler_def cmd_x_tokens)
  show "newlines (printed (x_dump_spec env (machine s) addr (nat n))) = nat n"
    by (rule newlines_x_dump)
  show "reads (x_dump_spec env (machine s) addr (nat n)) = map (\<lambda>k. addr + of_nat k) [0..<4 * nat n]"
    by (rule reads_x_dump)
  fix i
  show "printed (x_row_spec env (machine s) addr i) =
           ''0x'' @ fmt_08x (addr + 4 * of_nat i) @ '': '' @
           concat (map (\<lambda>j. ''0x'' @
                     fmt_02x (vaddr_read env (machine s) (addr + 4 * of_nat i + of_nat j) 1) @ '' '')
                   [0..<4]) @ ''\<newline>''"
    by (rule printed_x_row)
next
  assume "tok1 = None \<or> tok2 = None"
  with assms show "dispatch env str s =
          Inr (Continue, emit [Printf ''x N EXPR: scan memory\<newline>''] (s\<lparr>strtok_save := rest2\<rparr>))"
    by (auto simp: dispatch_x run_handler_def cmd_x_tokens split: option.splits)
qed

lemma example_dump:
  "x_dump_spec example_env () 0x1000 2 =
    [Printf ''0x00001000: '', Vaddr_read 0x1000 1, Printf ''0x00 '',
            Vaddr_read 0x1001 1, Printf ''0x01 '', Vaddr_read 0x1002 1,
            Printf ''0x02 '', Vaddr_read 0x1003 1, Printf ''0x03 '',
            Printf ''\<newline>'', Printf ''0x00001004: '', Vaddr_read 0x1004 1,
            Printf ''0x04 '', Vaddr_read 0x1005 1, Printf ''0x05 '',
            Vaddr_read 0x1006 1, Printf ''0x06 '', Vaddr_read 0x1007 1,
            Printf ''0x07 '', Printf ''\<newline>'']"
proof -
  have u2: "[0..<2] = [0, 1]" by (simp add: upt_rec)
  have r4: "replicate 4 c = [c, c, c, c]" for c :: char by (simp add: numeral_eq_Suc)
  show ?thesis
    by (simp add: x_dump_spec_def x_row_spec_def x_byte_spec_def upt_4 u2 r4
       fmt_08x_def fmt_02x_def zero_pad_def hex_of_nat.simps hex_digit_def example_env_def
      del: upt_Suc)
qed

theorem x_dumps_rows_witness:
  "dispatch example_env ''x 2 0x1000'' example_state =
     Inr (Continue, example_state\<lparr>strtok_save := [], trace :=
       [Printf ''0x00001000: '', Vaddr_read 0x1000 1, Printf ''0x00 '',
            Vaddr_read 0x1001 1, Printf ''0x01 '', Vaddr_read 0x1002 1,
            Printf ''0x02 '', Vaddr_read 0x1003 1, Printf ''0x03 '',
            Printf ''\<newline>'', Printf ''0x00001004: '', Vaddr_read 0x1004 1,
            Printf ''0x04 '', Vaddr_read 0x1005 1, Printf ''0x05 '',
            Vaddr_read 0x1006 1, Printf ''0x06 '', Vaddr_read 0x1007 1,
            Printf ''0x07 '', Printf ''\<newline>'']\<rparr>) \<and>
   newlines (printed (x_dump_spec example_env () 0x1000 2)) = 2 \<and>
   dispatch example_env ''x 2'' example_state =
     Inr (Continue, example_state\<lparr>strtok_save := [],
            trace := [Printf ''x N EXPR: scan memory\<newline>'']\<rparr>)"
proof -
  have a0: "strtok_in ''x 2 0x1000'' = (Some ''x'', ''2 0x1000'')" by (simp add: strtok_in_def)
  have a1: "strtok_in ''2 0x1000'' = (Some ''2'', ''0x1000'')" by (simp add: strtok_in_def)
  have a2: "strtok_in ''0x1000'' = (Some ''0x1000'', [])" by (simp add: strtok_in_def)
  have b0: "strtok_in ''x 2'' = (Some ''x'', ''2'')" by (simp add: strtok_in_def)
  have b1: "strtok_in ''2'' = (Some ''2'', [])" by (simp add: strtok_in_def)
  have b2: "strtok_in [] = (None, [])" by (simp add: strtok_in_def)
  have sc: "sscanf_d example_env ''2'' = Some 2" "sscanf_x example_env ''0x1000'' = Some 0x1000"
    by (simp_all add: example_scan)
  have st: "machine example_state = ()" "trace example_state = []"
    by (simp_all add: example_state_def)
  show ?thesis
    using x_dumps_rows [OF a0 a1 a2, of example_env example_state]
      x_dumps_rows [OF b0 b1 b2, of example_env example_state] sc st
    by (simp add: example_dump emit_def)
qed

text \<open>
  Claim C10. For every dispatched \<^verbatim>\<open>x N ADDR\<close> where both tokens are there and \<open>N\<close>
  scans to an integer \<open>n \<le> 0\<close> the handler neither prints nor reads memory: the trace is
  the one before the command. (\<open>ADDR\<close> need not scan: \<^verbatim>\<open>addr\<close> is never read.)
\<close>

theorem x_nonpositive_count:
  assumes "strtok_in str = (Some ''x'', rest)"
    and "strtok_in rest = (Some a1, rest1)" and "strtok_in rest1 = (Some a2, rest2)"
    and "sscanf_d env a1 = Some n" and "n \<le> 0"
  shows "dispatch env str s = Inr (Continue, s\<lparr>strtok_save := rest2\<rparr>) \<and>
         trace (s\<lparr>strtok_save := rest2\<rparr>) = trace s"
  using assms by (simp add: dispatch_x run_handler_def cmd_x_tokens)

theorem x_nonpositive_count_witness:
  "dispatch example_env ''x 0 0x1000'' example_state =
     Inr (Continue, example_state\<lparr>strtok_save := []\<rparr>) \<and>
   dispatch example_env ''x -3 zz'' example_state =
     Inr (Continue, example_state\<lparr>strtok_save := []\<rparr>)"
proof -
  have a0: "strtok_in ''x 0 0x1000'' = (Some ''x'', ''0 0x1000'')" by (simp add: strtok_in_def)
  have a1: "strtok_in ''0 0x1000'' = (Some ''0'', ''0x1000'')" by (simp add: strtok_in_def)
  have a2: "strtok_in ''0x1000'' = (Some ''0x1000'', [])" by (simp add: strtok_in_def)
  have b0: "strtok_in ''x -3 zz'' = (Some ''x'', ''-3 zz'')" by (simp add: strtok_in_def)
  have b1: "strtok_in ''-3 zz'' = (Some ''-3'', ''zz'')" by (simp add: strtok_in_def)
  have b2: "strtok_in ''zz'' = (Some ''zz'', [])" by (simp add: strtok_in_def)
  have sa: "sscanf_d example_env ''0'' = Some 0" by (simp add: example_scan)
  have sb: "sscanf_d example_env ''-3'' = Some (- 3)" by (simp add: example_scan)
  show ?thesis
    using x_nonpositive_count [OF a0 a1 a2 sa, of example_state]
      x_nonpositive_count [OF b0 b1 b2 sb, of example_state]
    by simp
qed

subsection \<open>The watchpoint pool under \<^verbatim>\<open>w\<close> and \<^verbatim>\<open>d\<close>\<close>

lemma wf_init_wp_pool: "wf_store (init_wp_pool capacity)"
  by (simp add: wf_store_def init_wp_pool_def)

lemma new_wp_Some:
  "new_wp p = Some (i, p') \<Longrightarrow>
   free_list p = i # free_list p' \<and> active_list p' = i # active_list p \<and> slots p' = slots p"
  by (auto simp: new_wp_def split: list.splits)

lemma wf_new_wp:
  assumes "wf_store p" and "new_wp p = Some (i, p')"
  shows "wf_store p'" and "i \<notin> set (active_list p)" and "i < length (slots p)"
    and "occupancy p' = Suc (occupancy p)"
proof -
  from new_wp_Some [OF assms(2)]
  have f: "free_list p = i # free_list p'" and a: "active_list p' = i # active_list p"
    and sl: "slots p' = slots p" by simp_all
  from assms(1) f show "i \<notin> set (active_list p)"
    by (auto simp: wf_store_def)
  from assms(1) f have "i \<in> {0..<length (slots p)}"
    unfolding wf_store_def by (metis UnCI list.set_intros(1))
  then show "i < length (slots p)" by simp
  from assms(1) f a sl show "wf_store p'"
    by (auto simp: wf_store_def)
  from a show "occupancy p' = Suc (occupancy p)"
    by (simp add: occupancy_def)
qed

lemma wf_free_wp: "wf_store p \<Longrightarrow> wf_store (free_wp i p)"
  by (auto simp: wf_store_def free_wp_def distinct_removeAll)

lemma wf_free_wp_by_num: "wf_store p \<Longrightarrow> wf_store (free_wp_by_num n p)"
  by (simp add: free_wp_by_num_def wf_free_wp)

lemma wf_set_wp_expr [simp]: "wf_store (set_wp_expr i e p) = wf_store p"
  by (simp add: wf_store_def set_wp_expr_def)

lemma wf_set_wp_value [simp]: "wf_store (set_wp_value i v p) = wf_store p"
  by (simp add: wf_store_def set_wp_value_def)

lemma free_wp_by_num_inactive:
  "\<not> (0 \<le> n \<and> nat n \<in> set (active_list p)) \<Longrightarrow> free_wp_by_num n p = p"
  by (auto simp: free_wp_by_num_def)

lemma free_wp_inactive_after: "i \<notin> set (active_list (free_wp i p))"
  by (simp add: free_wp_def)

lemma free_wp_by_num_twice: "free_wp_by_num n (free_wp_by_num n p) = free_wp_by_num n p"
  by (simp add: free_wp_by_num_def free_wp_inactive_after)

lemma free_after_new:
  assumes "wf_store p" and "new_wp p = Some (i, p')"
  shows "free_list (free_wp i p') = free_list p" and "active_list (free_wp i p') = active_list p"
proof -
  from new_wp_Some [OF assms(2)]
  have f: "free_list p = i # free_list p'" and a: "active_list p' = i # active_list p" by simp_all
  from wf_new_wp(2) [OF assms] have n: "i \<notin> set (active_list p)" .
  from f a show "free_list (free_wp i p') = free_list p" by (simp add: free_wp_def)
  from a n show "active_list (free_wp i p') = active_list p" by (simp add: free_wp_def)
qed

lemma lists_set_wp [simp]:
  "free_list (set_wp_expr i e p) = free_list p" "active_list (set_wp_expr i e p) = active_list p"
  "free_list (set_wp_value i v p) = free_list p" "active_list (set_wp_value i v p) = active_list p"
  by (simp_all add: set_wp_expr_def set_wp_value_def)

lemma free_wp_set_wp:
  "free_wp i (set_wp_value j v (set_wp_expr j e p)) = set_wp_value j v (set_wp_expr j e (free_wp i p))"
  by (simp add: free_wp_def set_wp_expr_def set_wp_value_def)

lemma cmd_w_token:
  assumes "strtok_in rest = (Some a, rest')" and "new_wp (wp_pool s) = Some (wp, p1)"
  shows "cmd_w env args (s\<lparr>strtok_save := rest\<rparr>) =
     Inr (0,
       if snd (isa_reg_str2val env (machine s) a)
       then emit [Isa_reg_str2val a]
              (s\<lparr>strtok_save := rest',
                 wp_pool := set_wp_value wp (fst (isa_reg_str2val env (machine s) a))
                              (set_wp_expr wp a p1)\<rparr>)
       else emit [Isa_reg_str2val a, Printf ''Invalid expression\<newline>'']
              (s\<lparr>strtok_save := rest',
                 wp_pool := free_wp wp (set_wp_value wp (fst (isa_reg_str2val env (machine s) a))
                              (set_wp_expr wp a p1))\<rparr>))"
  using assms
  by (simp add: cmd_w_def strtok_next_save emit_def Let_def split: prod.splits)


lemma dispatch_w:
  "strtok_in str = (Some ''w'', rest) \<Longrightarrow>
   dispatch env str s = run_handler cmd_w env (if rest = [] then None else Some rest) (s\<lparr>strtok_save := rest\<rparr>)"
  by (simp add: dispatch_token search_w)

lemma dispatch_d:
  "strtok_in str = (Some ''d'', rest) \<Longrightarrow>
   dispatch env str s = run_handler cmd_d env (if rest = [] then None else Some rest) (s\<lparr>strtok_save := rest\<rparr>)"
  by (simp add: dispatch_token search_d)

text \<open>
  The path of \<^verbatim>\<open>cmd_w\<close> on which a slot is there. When the Store is consistent and hands
  out the slot \<open>wp\<close>, and the evaluation of the token \<open>a\<close> fails, the command ends in the
  state below: the text and the value have been written to the slot, the line
  \<^verbatim>\<open>Invalid expression\<close> is the only text printed, and the Store holds the free list
  and the active list it held before the command.
\<close>

lemma watchpoint_overwrite: "(r :: watchpoint)\<lparr>expr := a, val := v\<rparr> = \<lparr>expr = a, val = v\<rparr>"
  by (cases r) simp

lemma rollback_pool:
  assumes "wf_store p" and "new_wp p = Some (wp, p1)"
  shows "free_wp wp (set_wp_value wp v (set_wp_expr wp a p1)) =
         p\<lparr>slots := (slots p)[wp := \<lparr>expr = a, val = v\<rparr>]\<rparr>"
proof -
  from new_wp_Some [OF assms(2)]
  have f: "free_list p = wp # free_list p1" and ac: "active_list p1 = wp # active_list p"
    and sl: "slots p1 = slots p" by simp_all
  from wf_new_wp(2) [OF assms] have na: "wp \<notin> set (active_list p)" .
  from wf_new_wp(3) [OF assms] have lt: "wp < length (slots p)" .
  from assms(2) have p1: "p1 = p\<lparr>free_list := free_list p1, active_list := wp # active_list p\<rparr>"
    by (auto simp: new_wp_def split: list.splits)
  have "free_wp wp (set_wp_value wp v (set_wp_expr wp a p1)) =
      set_wp_value wp v (set_wp_expr wp a (free_wp wp p1))"
    by (simp add: free_wp_set_wp)
  also have "free_wp wp p1 = p"
    using ac na f by (subst p1) (simp add: free_wp_def)
  also have "set_wp_value wp v (set_wp_expr wp a p) =
      p\<lparr>slots := (slots p)[wp := \<lparr>expr = a, val = v\<rparr>]\<rparr>"
    using lt by (simp add: set_wp_value_def set_wp_expr_def watchpoint_overwrite)
  finally show ?thesis .
qed

lemma w_rollback_state:
  assumes "strtok_in str = (Some ''w'', rest)" and "strtok_in rest = (Some a, rest')"
    and "wf_store (wp_pool s)" and "new_wp (wp_pool s) = Some (wp, p1)"
    and "\<not> snd (isa_reg_str2val env (machine s) a)"
  shows "dispatch env str s =
     Inr (Continue,
          emit [Isa_reg_str2val a, Printf ''Invalid expression\<newline>'']
            (s\<lparr>strtok_save := rest',
               wp_pool := (wp_pool s)\<lparr>slots := (slots (wp_pool s))
                  [wp := \<lparr>expr = a, val = fst (isa_reg_str2val env (machine s) a)\<rparr>]\<rparr>\<rparr>))"
  using assms(1,5) cmd_w_token [OF assms(2,4), of env _ ] rollback_pool [OF assms(3,4)]
  by (simp add: dispatch_w run_handler_def)

text \<open>
  Hence, on this path, the slot is back in the free list and not active when the handler
  returns, and the occupancy is what it was.
\<close>

theorem w_invalid_expression_rolls_back:
  assumes "strtok_in str = (Some ''w'', rest)" and "strtok_in rest = (Some a, rest')"
    and "wf_store (wp_pool s)" and "new_wp (wp_pool s) = Some (wp, p1)"
    and "\<not> snd (isa_reg_str2val env (machine s) a)"
  shows "\<exists>s'. dispatch env str s = Inr (Continue, s') \<and>
           trace s' = trace s @ [Isa_reg_str2val a, Printf ''Invalid expression\<newline>''] \<and>
           wp \<in> set (free_list (wp_pool s')) \<and>
           wp \<notin> set (active_list (wp_pool s')) \<and>
           free_list (wp_pool s') = free_list (wp_pool s) \<and>
           active_list (wp_pool s') = active_list (wp_pool s) \<and>
           occupancy (wp_pool s') = occupancy (wp_pool s) \<and>
           wf_store (wp_pool s')"
proof -
  define v where "v = fst (isa_reg_str2val env (machine s) a)"
  define pool' where "pool' = free_wp wp (set_wp_value wp v (set_wp_expr wp a p1))"
  define s' where "s' = emit [Isa_reg_str2val a, Printf ''Invalid expression\<newline>'']
                          (s\<lparr>strtok_save := rest', wp_pool := pool'\<rparr>)"
  have run: "dispatch env str s = Inr (Continue, s')"
    using assms(1,5) cmd_w_token [OF assms(2,4), of env _ ]
    by (simp add: dispatch_w run_handler_def s'_def pool'_def v_def)
  have pool: "wp_pool s' = pool'" and tr: "trace s' = trace s @ [Isa_reg_str2val a, Printf ''Invalid expression\<newline>'']"
    by (simp_all add: s'_def emit_def)
  have eq: "pool' = set_wp_value wp v (set_wp_expr wp a (free_wp wp p1))"
    by (simp add: pool'_def free_wp_set_wp)
  have fl: "free_list pool' = free_list (wp_pool s)" and al: "active_list pool' = active_list (wp_pool s)"
    using free_after_new [OF assms(3,4)] by (simp_all add: eq)
  from new_wp_Some [OF assms(4)] have hd: "wp \<in> set (free_list (wp_pool s))" by simp
  from wf_new_wp(2) [OF assms(3,4)] have na: "wp \<notin> set (active_list (wp_pool s))" .
  have wf: "wf_store pool'"
    unfolding eq using wf_free_wp [OF wf_new_wp(1) [OF assms(3,4)], of wp] by simp
  show ?thesis
    using run tr hd na wf by (intro exI [of _ s']) (simp add: pool fl al occupancy_def)
qed

theorem w_invalid_expression_rolls_back_witness:
  "\<exists>s'. dispatch example_env ''w 1+'' example_state = Inr (Continue, s') \<and>
     trace s' = [Isa_reg_str2val ''1+'', Printf ''Invalid expression\<newline>''] \<and>
     free_list (wp_pool s') = [0, 1, 2, 3] \<and> active_list (wp_pool s') = [] \<and>
     occupancy (wp_pool s') = 0"
proof -
  have a0: "strtok_in ''w 1+'' = (Some ''w'', ''1+'')" by (simp add: strtok_in_def)
  have a1: "strtok_in ''1+'' = (Some ''1+'', [])" by (simp add: strtok_in_def)
  have wf: "wf_store (wp_pool example_state)"
    by (simp add: example_state_def wf_init_wp_pool)
  have u4: "[0..<4] = [0, 1, 2, 3]" by (simp add: upt_rec)
  have nw: "new_wp (wp_pool example_state) =
      Some (0, (wp_pool example_state)\<lparr>free_list := [1, 2, 3], active_list := [0]\<rparr>)"
    by (simp add: new_wp_def example_state_def init_wp_pool_def u4 del: upt_Suc)
  have ev: "\<not> snd (isa_reg_str2val example_env (machine example_state) ''1+'')"
    by (simp add: example_env_def)
  have st: "trace example_state = []" "free_list (wp_pool example_state) = [0, 1, 2, 3]"
    "active_list (wp_pool example_state) = []" "occupancy (wp_pool example_state) = 0"
    by (simp_all add: example_state_def init_wp_pool_def occupancy_def u4 del: upt_Suc)
  from w_invalid_expression_rolls_back [OF a0 a1 wf nw ev]
  show ?thesis unfolding st by auto
qed

subsection \<open>Consistency of the pool\<close>

lemma wp_pool_emit [simp]: "wp_pool (emit es s) = wp_pool s"
  by (simp add: emit_def)

lemma wp_pool_call_cpu_exec [simp]: "wp_pool (call_cpu_exec env n s) = wp_pool s"
  by (simp add: call_cpu_exec_def)

lemma wp_pool_strtok_next [simp]: "wp_pool (snd (strtok_next s)) = wp_pool s"
  by (simp add: strtok_next_def split: prod.splits)

lemma wp_pool_rl_gets [simp]: "wp_pool (rl_gets l s) = wp_pool s"
  by (simp add: rl_gets_def split: option.splits)

lemma wp_pool_x_rows [simp]: "wp_pool (fst (x_rows env n (s, addr))) = wp_pool s"
  by (simp add: x_rows_spec)

lemma strtok_next_cases:
  obtains tok s1 where "strtok_next s = (tok, s1)" and "wp_pool s1 = wp_pool s"
  using wp_pool_strtok_next [of s] by (cases "strtok_next s") auto

lemma pool_unchanged:
  "cmd_help env args s = Inr (r, s') \<Longrightarrow> wp_pool s' = wp_pool s"
  "cmd_c env args s = Inr (r, s') \<Longrightarrow> wp_pool s' = wp_pool s"
  "cmd_q env args s = Inr (r, s') \<Longrightarrow> wp_pool s' = wp_pool s"
  by (auto simp: cmd_help_def cmd_c_def cmd_q_def)

lemma pool_unchanged_si: "cmd_si env args s = Inr (r, s') \<Longrightarrow> wp_pool s' = wp_pool s"
  by (rule strtok_next_cases [of s]) (auto simp: cmd_si_def Let_def)

lemma pool_unchanged_info: "cmd_info env args s = Inr (r, s') \<Longrightarrow> wp_pool s' = wp_pool s"
  by (rule strtok_next_cases [of s]) (auto simp: cmd_info_def split: option.splits if_splits)

lemma pool_unchanged_p: "cmd_p env args s = Inr (r, s') \<Longrightarrow> wp_pool s' = wp_pool s"
  by (rule strtok_next_cases [of s])
     (auto simp: cmd_p_def Let_def split: option.splits if_splits prod.splits)

lemma pool_unchanged_x:
  assumes "cmd_x env args s = Inr (r, s')"
  shows "wp_pool s' = wp_pool s"
proof -
  obtain tok1 s1 where n1: "strtok_next s = (tok1, s1)" and p1: "wp_pool s1 = wp_pool s"
    by (rule strtok_next_cases)
  obtain tok2 s2 where n2: "strtok_next s1 = (tok2, s2)" and p2: "wp_pool s2 = wp_pool s1"
    by (rule strtok_next_cases)
  from assms n1 n2 p1 p2 show ?thesis
    by (auto simp: cmd_x_def split: option.splits if_splits)
qed

lemma wf_after_w:
  assumes "cmd_w env args s = Inr (r, s')" and "wf_store (wp_pool s)"
  shows "wf_store (wp_pool s')"
proof -
  obtain tok s1 where n1: "strtok_next s = (tok, s1)" and p1: "wp_pool s1 = wp_pool s"
    by (rule strtok_next_cases)
  show ?thesis
  proof (cases tok)
    case None
    with assms n1 p1 show ?thesis by (auto simp: cmd_w_def)
  next
    case (Some a)
    with assms(1) n1 obtain wp pool1 where nw: "new_wp (wp_pool s1) = Some (wp, pool1)"
      by (auto simp: cmd_w_def split: option.splits)
    with assms(2) p1 have wf1: "wf_store pool1"
      using wf_new_wp(1) [of "wp_pool s" wp pool1] by simp
    from assms(1) n1 Some nw wf1 show ?thesis
      by (auto simp: cmd_w_def Let_def wf_free_wp split: prod.splits if_splits)
  qed
qed

lemma wf_after_d:
  assumes "cmd_d env args s = Inr (r, s')" and "wf_store (wp_pool s)"
  shows "wf_store (wp_pool s')"
proof -
  obtain tok s1 where n1: "strtok_next s = (tok, s1)" and p1: "wp_pool s1 = wp_pool s"
    by (rule strtok_next_cases)
  from assms n1 p1 show ?thesis
    by (auto simp: cmd_d_def wf_free_wp_by_num split: option.splits)
qed

lemma wf_after_handler:
  assumes "e \<in> set cmd_table" and "snd (snd e) env args s = Inr (r, s')"
    and "wf_store (wp_pool s)"
  shows "wf_store (wp_pool s')"
proof -
  from assms(1) have "snd (snd e) \<in> {cmd_help, cmd_c, cmd_q, cmd_si, cmd_info, cmd_x, cmd_p} \<or>
      snd (snd e) = cmd_w \<or> snd (snd e) = cmd_d"
    by (auto simp: cmd_table_def)
  then show ?thesis
  proof (elim disjE)
    assume "snd (snd e) \<in> {cmd_help, cmd_c, cmd_q, cmd_si, cmd_info, cmd_x, cmd_p}"
    with assms(2) have "wp_pool s' = wp_pool s"
      by (auto dest: pool_unchanged pool_unchanged_si pool_unchanged_info pool_unchanged_p
          pool_unchanged_x)
    with assms(3) show ?thesis by simp
  next
    assume "snd (snd e) = cmd_w"
    with assms(2,3) show ?thesis by (auto dest: wf_after_w)
  next
    assume "snd (snd e) = cmd_d"
    with assms(2,3) show ?thesis by (auto dest: wf_after_d)
  qed
qed

lemma wf_after_search:
  assumes "set tbl \<subseteq> set cmd_table" and "search_table tbl env cmd args s = Inr (r, s')"
    and "wf_store (wp_pool s)"
  shows "wf_store (wp_pool s')"
  using assms
proof (induction tbl)
  case Nil
  then show ?case by auto
next
  case (Cons e tbl)
  obtain name description handler where e: "e = (name, description, handler)"
    by (cases e) auto
  show ?case
  proof (cases "cmd = name")
    case True
    with Cons.prems(2) e obtain r0 where "handler env args s = Inr (r0, s')"
      by (auto simp: run_handler_def split: sum.splits prod.splits)
    moreover from Cons.prems(1) e have "(name, description, handler) \<in> set cmd_table" by simp
    ultimately show ?thesis
      using wf_after_handler [of "(name, description, handler)" env args s r0 s'] Cons.prems(3)
      by simp
  next
    case False
    with Cons e show ?thesis by simp
  qed
qed

lemma wf_after_dispatch:
  assumes "dispatch env str s = Inr (r, s')" and "wf_store (wp_pool s)"
  shows "wf_store (wp_pool s')"
proof (cases "strtok_in str")
  case (Pair tok rest)
  show ?thesis
  proof (cases tok)
    case None
    with Pair assms show ?thesis by (auto simp: dispatch_def)
  next
    case (Some cmd)
    with Pair assms(1) have "search_table cmd_table env cmd (if rest = [] then None else Some rest)
        (s\<lparr>strtok_save := rest\<rparr>) = Inr (r, s')"
      by (simp add: dispatch_def)
    then show ?thesis
      using wf_after_search [of cmd_table env cmd _ "s\<lparr>strtok_save := rest\<rparr>" r s'] assms(2)
      by simp
  qed
qed

lemma wf_after_read_loop:
  "read_loop env input s = Inr (s', unread) \<Longrightarrow> wf_store (wp_pool s) \<Longrightarrow> wf_store (wp_pool s')"
proof (induction input arbitrary: s)
  case Nil
  then show ?case by auto
next
  case (Cons str input)
  from Cons.prems(1) obtain r s1 where d: "dispatch env str (rl_gets (Some str) s) = Inr (r, s1)"
    by (auto split: sum.splits)
  with Cons.prems(2) have wf1: "wf_store (wp_pool s1)"
    using wf_after_dispatch [OF d] by simp
  show ?case
  proof (cases r)
    case Continue
    with Cons.prems(1) d have "read_loop env input s1 = Inr (s', unread)" by simp
    then show ?thesis using wf1 by (rule Cons.IH)
  next
    case Terminate
    with Cons.prems(1) d wf1 show ?thesis by simp
  qed
qed


lemma wf_after_mainloop:
  assumes "sdb_mainloop env input s = Inr (s', unread)" and "wf_store (wp_pool s)"
  shows "wf_store (wp_pool s')"
proof (cases "is_batch_mode s")
  case True
  with assms(1) have "wp_pool s' = wp_pool s"
    by (auto simp: sdb_mainloop_def cmd_c_def)
  with assms(2) show ?thesis by simp
next
  case False
  with assms(1) have "read_loop env input s = Inr (s', unread)"
    by (simp add: sdb_mainloop_def)
  then show ?thesis using assms(2) by (rule wf_after_read_loop)
qed


lemma cmd_d_token:
  "strtok_in rest = (Some a, rest') \<Longrightarrow> sscanf_d env a = Some n \<Longrightarrow>
   cmd_d env args (s\<lparr>strtok_save := rest\<rparr>) =
     Inr (0, s\<lparr>strtok_save := rest', wp_pool := free_wp_by_num n (wp_pool s)\<rparr>)"
  by (simp add: cmd_d_def strtok_next_save)

lemma dispatch_d_number:
  "strtok_in str = (Some ''d'', rest) \<Longrightarrow> strtok_in rest = (Some a, rest') \<Longrightarrow>
   sscanf_d env a = Some n \<Longrightarrow>
   dispatch env str s =
     Inr (Continue, s\<lparr>strtok_save := rest', wp_pool := free_wp_by_num n (wp_pool s)\<rparr>)"
  by (simp add: dispatch_d run_handler_def cmd_d_token)

lemma dispatch_w_valid:
  "strtok_in str = (Some ''w'', rest) \<Longrightarrow> strtok_in rest = (Some a, rest') \<Longrightarrow>
   new_wp (wp_pool s) = Some (wp, p1) \<Longrightarrow> snd (isa_reg_str2val env (machine s) a) \<Longrightarrow>
   dispatch env str s =
     Inr (Continue, emit [Isa_reg_str2val a]
              (s\<lparr>strtok_save := rest',
                 wp_pool := set_wp_value wp (fst (isa_reg_str2val env (machine s) a))
                              (set_wp_expr wp a p1)\<rparr>))"
  by (simp add: dispatch_w run_handler_def cmd_w_token)

lemma w_then_d_twice:
  assumes wf: "wf_store (wp_pool s)"
    and w: "strtok_in ws = (Some ''w'', wrest)" "strtok_in wrest = (Some a, wrest')"
    and nw: "new_wp (wp_pool s) = Some (wp, p1)"
    and ok: "snd (isa_reg_str2val env (machine s) a)"
    and d: "strtok_in ds = (Some ''d'', drest)" "strtok_in drest = (Some b, drest')"
    and num: "sscanf_d env b = Some (int wp)"
  shows "\<exists>s1 s2. dispatch env ws s = Inr (Continue, s1) \<and>
           wp \<in> set (active_list (wp_pool s1)) \<and>
           occupancy (wp_pool s1) = Suc (occupancy (wp_pool s)) \<and>
           dispatch env ds s1 = Inr (Continue, s2) \<and>
           wp \<notin> set (active_list (wp_pool s2)) \<and>
           occupancy (wp_pool s2) = occupancy (wp_pool s) \<and>
           wf_store (wp_pool s2) \<and>
           dispatch env ds s2 = Inr (Continue, s2)"
proof -
  define v where "v = fst (isa_reg_str2val env (machine s) a)"
  define pool1 where "pool1 = set_wp_value wp v (set_wp_expr wp a p1)"
  define s1 where "s1 = emit [Isa_reg_str2val a] (s\<lparr>strtok_save := wrest', wp_pool := pool1\<rparr>)"
  define pool2 where "pool2 = free_wp_by_num (int wp) pool1"
  define s2 where "s2 = s1\<lparr>strtok_save := drest', wp_pool := pool2\<rparr>"
  have r1: "dispatch env ws s = Inr (Continue, s1)"
    using dispatch_w_valid [OF w nw ok] by (simp add: s1_def pool1_def v_def)
  have p1: "wp_pool s1 = pool1" by (simp add: s1_def)
  from new_wp_Some [OF nw] have a1: "active_list pool1 = wp # active_list (wp_pool s)"
    by (simp add: pool1_def)
  have wf1: "wf_store pool1"
    using wf_new_wp(1) [OF wf nw] by (simp add: pool1_def)
  have r2: "dispatch env ds s1 = Inr (Continue, s2)"
    using dispatch_d_number [OF d num, of s1] by (simp add: s2_def pool2_def p1)
  have p2: "wp_pool s2 = pool2" by (simp add: s2_def)
  from wf_new_wp(2) [OF wf nw] have na: "wp \<notin> set (active_list (wp_pool s))" .
  have a2: "active_list pool2 = active_list (wp_pool s)"
    using a1 na by (simp add: pool2_def free_wp_by_num_def free_wp_def)
  have wf2: "wf_store pool2"
    unfolding pool2_def using wf1 by (rule wf_free_wp_by_num)
  have noop: "free_wp_by_num (int wp) pool2 = pool2"
    unfolding pool2_def by (rule free_wp_by_num_twice)
  have "dispatch env ds s2 = Inr (Continue, s2\<lparr>strtok_save := drest', wp_pool := pool2\<rparr>)"
    using dispatch_d_number [OF d num, of s2] by (simp add: p2 noop)
  also have "s2\<lparr>strtok_save := drest', wp_pool := pool2\<rparr> = s2"
    by (simp add: s2_def)
  finally have r3: "dispatch env ds s2 = Inr (Continue, s2)" .
  show ?thesis
    using r1 r2 r3 na wf2
    by (intro exI [of _ s1] exI [of _ s2]) (simp add: p1 p2 a1 a2 occupancy_def)
qed


text \<open>
  Claim C2. From a consistent Store, whatever lines are dispatched, the free list and the
  active list remain a partition of the slots in every state the loop reaches (first
  conjunct); releasing any id keeps the partition (second conjunct); releasing an id that
  is negative, unknown or already released changes nothing in the Store (third conjunct),
  and \<^verbatim>\<open>d\<close> with such an id changes nothing in the state but the position of \<^verbatim>\<open>strtok\<close>
  (fourth conjunct); after \<^verbatim>\<open>w\<close> with an expression that evaluates, which activates the
  slot \<open>wp\<close>, \<^verbatim>\<open>d\<close> with the id \<open>wp\<close> brings the occupancy back to its value before
  \<^verbatim>\<open>w\<close>, and a second \<^verbatim>\<open>d\<close> with the same id leaves the whole state as it is
  (fifth conjunct).
\<close>

theorem watchpoint_store_stays_consistent:
  assumes "wf_store (wp_pool s)"
  shows
    "(\<forall>input s' unread. sdb_mainloop env input s = Inr (s', unread) \<longrightarrow> wf_store (wp_pool s')) \<and>
     (\<forall>n. wf_store (free_wp_by_num n (wp_pool s))) \<and>
     (\<forall>n. \<not> (0 \<le> n \<and> nat n \<in> set (active_list (wp_pool s))) \<longrightarrow>
        free_wp_by_num n (wp_pool s) = wp_pool s) \<and>
     (\<forall>str rest a rest' n.
        strtok_in str = (Some ''d'', rest) \<and> strtok_in rest = (Some a, rest') \<and>
        sscanf_d env a = Some n \<and> \<not> (0 \<le> n \<and> nat n \<in> set (active_list (wp_pool s))) \<longrightarrow>
        dispatch env str s = Inr (Continue, s\<lparr>strtok_save := rest'\<rparr>)) \<and>
     (\<forall>ws wrest a wrest' wp p1 ds drest b drest'.
        strtok_in ws = (Some ''w'', wrest) \<and> strtok_in wrest = (Some a, wrest') \<and>
        new_wp (wp_pool s) = Some (wp, p1) \<and> snd (isa_reg_str2val env (machine s) a) \<and>
        strtok_in ds = (Some ''d'', drest) \<and> strtok_in drest = (Some b, drest') \<and>
        sscanf_d env b = Some (int wp) \<longrightarrow>
        (\<exists>s1 s2. dispatch env ws s = Inr (Continue, s1) \<and>
           wp \<in> set (active_list (wp_pool s1)) \<and>
           occupancy (wp_pool s1) = Suc (occupancy (wp_pool s)) \<and>
           dispatch env ds s1 = Inr (Continue, s2) \<and>
           wp \<notin> set (active_list (wp_pool s2)) \<and>
           occupancy (wp_pool s2) = occupancy (wp_pool s) \<and>
           wf_store (wp_pool s2) \<and>
           dispatch env ds s2 = Inr (Continue, s2)))"
proof (intro conjI allI impI)
  fix input s' unread
  assume "sdb_mainloop env input s = Inr (s', unread)"
  then show "wf_store (wp_pool s')" using assms by (rule wf_after_mainloop)
next
  fix n show "wf_store (free_wp_by_num n (wp_pool s))"
    using assms by (rule wf_free_wp_by_num)
next
  fix n assume "\<not> (0 \<le> n \<and> nat n \<in> set (active_list (wp_pool s)))"
  then show "free_wp_by_num n (wp_pool s) = wp_pool s" by (rule free_wp_by_num_inactive)
next
  fix str rest a rest' n
  assume h: "strtok_in str = (Some ''d'', rest) \<and> strtok_in rest = (Some a, rest') \<and>
        sscanf_d env a = Some n \<and> \<not> (0 \<le> n \<and> nat n \<in> set (active_list (wp_pool s)))"
  then have "free_wp_by_num n (wp_pool s) = wp_pool s" by (simp add: free_wp_by_num_inactive)
  with h show "dispatch env str s = Inr (Continue, s\<lparr>strtok_save := rest'\<rparr>)"
    using dispatch_d_number [of str rest a rest' env n s] by simp
next
  fix ws wrest a wrest' wp p1 ds drest b drest'
  assume "strtok_in ws = (Some ''w'', wrest) \<and> strtok_in wrest = (Some a, wrest') \<and>
        new_wp (wp_pool s) = Some (wp, p1) \<and> snd (isa_reg_str2val env (machine s) a) \<and>
        strtok_in ds = (Some ''d'', drest) \<and> strtok_in drest = (Some b, drest') \<and>
        sscanf_d env b = Some (int wp)"
  then show "\<exists>s1 s2. dispatch env ws s = Inr (Continue, s1) \<and>
           wp \<in> set (active_list (wp_pool s1)) \<and>
           occupancy (wp_pool s1) = Suc (occupancy (wp_pool s)) \<and>
           dispatch env ds s1 = Inr (Continue, s2) \<and>
           wp \<notin> set (active_list (wp_pool s2)) \<and>
           occupancy (wp_pool s2) = occupancy (wp_pool s) \<and>
           wf_store (wp_pool s2) \<and>
           dispatch env ds s2 = Inr (Continue, s2)"
    using w_then_d_twice [OF assms, of ws wrest a wrest' wp p1 env ds drest b drest'] by blast
qed


theorem watchpoint_store_stays_consistent_witness:
  "wf_store (wp_pool example_state) \<and>
   dispatch example_env ''d 7'' example_state =
     Inr (Continue, example_state\<lparr>strtok_save := []\<rparr>) \<and>
   (\<exists>s1 s2. dispatch example_env ''w pc'' example_state = Inr (Continue, s1) \<and>
      occupancy (wp_pool s1) = 1 \<and>
      dispatch example_env ''d 0'' s1 = Inr (Continue, s2) \<and>
      occupancy (wp_pool s2) = 0 \<and> wf_store (wp_pool s2) \<and>
      dispatch example_env ''d 0'' s2 = Inr (Continue, s2))"
proof -
  have wf: "wf_store (wp_pool example_state)"
    by (simp add: example_state_def wf_init_wp_pool)
  note all = watchpoint_store_stays_consistent [OF wf, of example_env]
  have u4: "[0..<4] = [0, 1, 2, 3]" by (simp add: upt_rec)
  have act: "active_list (wp_pool example_state) = []" "occupancy (wp_pool example_state) = 0"
    by (simp_all add: example_state_def init_wp_pool_def occupancy_def)
  have d0: "strtok_in ''d 7'' = (Some ''d'', ''7'')" by (simp add: strtok_in_def)
  have d1: "strtok_in ''7'' = (Some ''7'', [])" by (simp add: strtok_in_def)
  have s7: "sscanf_d example_env ''7'' = Some 7" by (simp add: example_scan)
  have unknown: "dispatch example_env ''d 7'' example_state =
      Inr (Continue, example_state\<lparr>strtok_save := []\<rparr>)"
    using all [THEN conjunct2, THEN conjunct2, THEN conjunct2, THEN conjunct1, rule_format,
        of "''d 7''" "''7''" "''7''" "[]" 7] d0 d1 s7 act
    by simp
  have w0: "strtok_in ''w pc'' = (Some ''w'', ''pc'')" by (simp add: strtok_in_def)
  have w1: "strtok_in ''pc'' = (Some ''pc'', [])" by (simp add: strtok_in_def)
  have nw: "new_wp (wp_pool example_state) =
      Some (0, (wp_pool example_state)\<lparr>free_list := [1, 2, 3], active_list := [0]\<rparr>)"
    by (simp add: new_wp_def example_state_def init_wp_pool_def u4 del: upt_Suc)
  have ok: "snd (isa_reg_str2val example_env (machine example_state) ''pc'')"
    by (simp add: example_env_def)
  have e0: "strtok_in ''d 0'' = (Some ''d'', ''0'')" by (simp add: strtok_in_def)
  have e1: "strtok_in ''0'' = (Some ''0'', [])" by (simp add: strtok_in_def)
  have s0: "sscanf_d example_env ''0'' = Some (int 0)" by (simp add: example_scan)
  have cycle: "\<exists>s1 s2. dispatch example_env ''w pc'' example_state = Inr (Continue, s1) \<and>
      0 \<in> set (active_list (wp_pool s1)) \<and>
      occupancy (wp_pool s1) = Suc (occupancy (wp_pool example_state)) \<and>
      dispatch example_env ''d 0'' s1 = Inr (Continue, s2) \<and>
      0 \<notin> set (active_list (wp_pool s2)) \<and>
      occupancy (wp_pool s2) = occupancy (wp_pool example_state) \<and> wf_store (wp_pool s2) \<and>
      dispatch example_env ''d 0'' s2 = Inr (Continue, s2)"
    using all [THEN conjunct2, THEN conjunct2, THEN conjunct2, THEN conjunct2, rule_format,
        of "''w pc''" "''pc''" "''pc''" "[]" 0 _ "''d 0''" "''0''" "''0''" "[]"]
      w0 w1 nw ok e0 e1 s0
    by simp
  from wf unknown cycle show ?thesis
    unfolding act by auto
qed

end
